theory Spec2Isabelle
  imports Complex_Main "HOL-Library.Char_ord" "HOL-Library.List_Lexorder" "HOL-Library.Multiset"
begin

section \<open>Event records and time\<close>

text \<open>
  One line of the enriched JSONL file is a dictionary. The scripts read the keys
  \<open>username\<close> and \<open>starred_at\<close> by subscription and every other key either by
  subscription (\<open>account_created\<close>) or by \<open>get\<close>; a key that may be missing is an
  option here, \<open>None\<close> standing for the missing key. A timestamp is the instant that
  \<open>datetime.fromisoformat\<close> parses, counted in microseconds (the resolution of a Python
  datetime) since 1970-01-01T00:00:00 UTC.
\<close>

type_synonym datetime = int

record account =
  username :: string
  starred_at :: datetime
  account_created :: "datetime option"
  status :: "string option"
  is_suspicious :: "bool option"
  public_repos :: "int option"
  followers :: "int option"
  following :: "int option"

datatype py_error = KeyError string | IndexError | ZeroDivisionError

text \<open>\<open>acc.get(key)\<close> used as a condition, and \<open>acc.get(key, default)\<close>.\<close>

definition truthy :: "bool option \<Rightarrow> bool" where
  "truthy v = (case v of None \<Rightarrow> False | Some b \<Rightarrow> b)"

definition get_or :: "'a option \<Rightarrow> 'a \<Rightarrow> 'a" where
  "get_or v d = (case v of None \<Rightarrow> d | Some x \<Rightarrow> x)"

text \<open>
  \<open>(a - b).total_seconds() / 60\<close> is a quotient of floats in the source; it is the exact
  rational here. \<open>(a - b).days\<close> is the floor of the difference in days.
\<close>

definition diff_minutes :: "datetime \<Rightarrow> datetime \<Rightarrow> rat" where
  "diff_minutes ts last_ts = of_int (ts - last_ts) / 1000000 / 60"

definition timedelta_days :: "datetime \<Rightarrow> datetime \<Rightarrow> int" where
  "timedelta_days starred created = (starred - created) div 86400000000"

section \<open>The detectors of analyze_fake_real_correlation.py\<close>

text \<open>
  \<open>create_star_timeline_graph.py\<close> holds the same four detectors, line for line, under
  the names used here (its ensemble is \<open>apply_advanced_detection\<close>).
\<close>

text \<open>The condition of the first loop of \<open>apply_full_detection\<close>.\<close>

definition basic_flagged :: "account \<Rightarrow> bool" where
  "basic_flagged acc = (truthy (is_suspicious acc) \<or> status acc = Some ''deleted'')"

definition basic_fake_usernames :: "account list \<Rightarrow> string set" where
  "basic_fake_usernames accounts = set (map username (filter basic_flagged accounts))"

text \<open>The condition under which \<open>detect_temporal_clustering\<close> keeps a record.\<close>

definition basic_legit_cond :: "account \<Rightarrow> bool" where
  "basic_legit_cond acc = (\<not> truthy (is_suspicious acc) \<and> status acc \<noteq> Some ''deleted'')"

text \<open>The condition under which the dormant and low-activity loops \<open>continue\<close>.\<close>

definition skip_cond :: "account \<Rightarrow> bool" where
  "skip_cond acc = (status acc = Some ''deleted'' \<or> truthy (is_suspicious acc))"

text \<open>
  One pass of the loop body of \<open>detect_temporal_clustering\<close> over the state
  \<open>(current_cluster, suspicious)\<close>. The cluster is never empty when the body runs.
\<close>

definition flag_cluster :: "(string \<times> datetime) list \<Rightarrow> string set \<Rightarrow> string set" where
  "flag_cluster current_cluster suspicious =
     (if length current_cluster \<ge> 10 then suspicious \<union> set (map fst current_cluster)
      else suspicious)"

fun cluster_step ::
  "int \<Rightarrow> (string \<times> datetime) \<Rightarrow> (string \<times> datetime) list \<times> string set
     \<Rightarrow> (string \<times> datetime) list \<times> string set" where
  "cluster_step threshold_minutes (uname, ts) (current_cluster, suspicious) =
     (let last_ts = snd (last current_cluster) in
      if diff_minutes ts last_ts \<le> of_int threshold_minutes
      then (current_cluster @ [(uname, ts)], suspicious)
      else ([(uname, ts)], flag_cluster current_cluster suspicious))"

definition timestamps_of :: "account list \<Rightarrow> (string \<times> datetime) list" where
  "timestamps_of accounts =
     sort_key snd (map (\<lambda>acc. (username acc, starred_at acc)) (filter basic_legit_cond accounts))"

definition detect_temporal_clustering :: "int \<Rightarrow> account list \<Rightarrow> string set" where
  "detect_temporal_clustering threshold_minutes accounts =
     (case timestamps_of accounts of
        [] \<Rightarrow> {}
      | first # rest \<Rightarrow>
          (case fold (cluster_step threshold_minutes) rest ([first], {}) of
             (current_cluster, suspicious) \<Rightarrow> flag_cluster current_cluster suspicious))"

text \<open>
  \<open>detect_dormant_accounts\<close>: \<open>acc['account_created']\<close> raises KeyError when the key is
  missing, which ends the run; the subscription is reached only for a record that the
  first test did not skip.
\<close>

fun dormant_loop :: "account list \<Rightarrow> string set \<Rightarrow> py_error + string set" where
  "dormant_loop [] suspicious = Inr suspicious"
| "dormant_loop (acc # rest) suspicious =
     (if skip_cond acc then dormant_loop rest suspicious
      else
        (case account_created acc of
           None \<Rightarrow> Inl (KeyError ''account_created'')
         | Some created \<Rightarrow>
             (let starred = starred_at acc;
                  account_age_days = timedelta_days starred created
              in if account_age_days > 365 \<and> get_or (public_repos acc) 0 < 3
                 then dormant_loop rest (insert (username acc) suspicious)
                 else dormant_loop rest suspicious)))"

definition detect_dormant_accounts :: "account list \<Rightarrow> py_error + string set" where
  "detect_dormant_accounts accounts = dormant_loop accounts {}"

fun low_activity_loop :: "account list \<Rightarrow> string set \<Rightarrow> string set" where
  "low_activity_loop [] suspicious = suspicious"
| "low_activity_loop (acc # rest) suspicious =
     (if skip_cond acc then low_activity_loop rest suspicious
      else
        (let repos = get_or (public_repos acc) 0;
             followers_n = get_or (followers acc) 0;
             following_n = get_or (following acc) 0
         in if repos = 0 \<and> followers_n < 5 \<and> following_n < 10
            then low_activity_loop rest (insert (username acc) suspicious)
            else low_activity_loop rest suspicious))"

definition detect_low_activity :: "account list \<Rightarrow> string set" where
  "detect_low_activity accounts = low_activity_loop accounts {}"

text \<open>
  \<open>apply_full_detection\<close>: the four detectors run in this order and the result is their
  union; an exception of the dormant detector leaves the function, and so does the
  division by \<open>len(self.accounts)\<close> in the summary line when there is no record.
\<close>

definition apply_full_detection :: "account list \<Rightarrow> py_error + string set" where
  "apply_full_detection accounts =
     (let basic = basic_fake_usernames accounts;
          temporal_fake = detect_temporal_clustering 60 accounts
      in case detect_dormant_accounts accounts of
           Inl e \<Rightarrow> Inl e
         | Inr dormant_fake \<Rightarrow>
             (let low_activity = detect_low_activity accounts;
                  all_fake = basic \<union> temporal_fake \<union> dormant_fake \<union> low_activity
              in if length accounts = 0 then Inl ZeroDivisionError else Inr all_fake))"

section \<open>run_advanced_on_collected.py\<close>

text \<open>The two lists that \<open>AdvancedAnalyzer.__init__\<close> derives from the records.\<close>

definition basic_fake :: "account list \<Rightarrow> account list" where
  "basic_fake accounts =
     filter (\<lambda>a. truthy (is_suspicious a) \<or> status a = Some ''deleted'') accounts"

definition basic_legit :: "account list \<Rightarrow> account list" where
  "basic_legit accounts =
     filter (\<lambda>a. \<not> truthy (is_suspicious a) \<and> status a \<noteq> Some ''deleted'') accounts"

text \<open>
  \<open>analyze_temporal_clustering\<close> keeps the clusters themselves: the loop state is
  \<open>(current_cluster, clusters)\<close>.
\<close>

fun clusters_step ::
  "int \<Rightarrow> (string \<times> datetime) \<Rightarrow> (string \<times> datetime) list \<times> (string \<times> datetime) list list
     \<Rightarrow> (string \<times> datetime) list \<times> (string \<times> datetime) list list" where
  "clusters_step threshold_minutes (uname, ts) (current_cluster, clusters) =
     (let last_ts = snd (last current_cluster) in
      if diff_minutes ts last_ts \<le> of_int threshold_minutes
      then (current_cluster @ [(uname, ts)], clusters)
      else ([(uname, ts)],
            if length current_cluster \<ge> 10 then clusters @ [current_cluster] else clusters))"

record temporal_result =
  clusters :: "(string \<times> datetime) list list"
  temporal_count :: nat
  temporal_accounts :: "string set"

definition find_clusters :: "int \<Rightarrow> (string \<times> datetime) list \<Rightarrow> (string \<times> datetime) list list" where
  "find_clusters threshold_minutes timestamps =
     (case timestamps of
        [] \<Rightarrow> []
      | first # rest \<Rightarrow>
          (case fold (clusters_step threshold_minutes) rest ([first], []) of
             (current_cluster, cs) \<Rightarrow>
               if length current_cluster \<ge> 10 then cs @ [current_cluster] else cs))"

definition analyze_temporal_clustering :: "int \<Rightarrow> account list \<Rightarrow> temporal_result" where
  "analyze_temporal_clustering threshold_minutes accounts =
     (let timestamps =
            sort_key snd (map (\<lambda>a. (username a, starred_at a)) (basic_legit accounts));
          cs = find_clusters threshold_minutes timestamps;
          suspicious_accounts = \<Union> (set (map (\<lambda>c. set (map fst c)) cs))
      in \<lparr>clusters = cs, temporal_count = card suspicious_accounts,
           temporal_accounts = suspicious_accounts\<rparr>)"

record dormant_detail =
  d_username :: string
  d_account_age_days :: int
  d_public_repos :: int
  d_followers :: int
  d_following :: int

fun suspicious_dormant_loop ::
  "account list \<Rightarrow> dormant_detail list \<Rightarrow> py_error + dormant_detail list" where
  "suspicious_dormant_loop [] suspicious_dormant = Inr suspicious_dormant"
| "suspicious_dormant_loop (a # rest) suspicious_dormant =
     (if status a = Some ''deleted'' then suspicious_dormant_loop rest suspicious_dormant
      else
        (case account_created a of
           None \<Rightarrow> Inl (KeyError ''account_created'')
         | Some created \<Rightarrow>
             (let starred = starred_at a;
                  account_age_days = timedelta_days starred created;
                  repos = get_or (public_repos a) 0
              in if account_age_days > 365 \<and> repos < 3
                 then suspicious_dormant_loop rest
                        (suspicious_dormant @
                           [\<lparr>d_username = username a, d_account_age_days = account_age_days,
                             d_public_repos = repos, d_followers = get_or (followers a) 0,
                             d_following = get_or (following a) 0\<rparr>])
                 else suspicious_dormant_loop rest suspicious_dormant)))"

record dormant_result =
  dormant_count :: nat
  dormant_accounts :: "string list"
  dormant_details :: "dormant_detail list"

text \<open>\<open>sort(key=..., reverse=True)\<close> is stable: equal ages keep their order.\<close>

definition analyze_dormant_accounts :: "account list \<Rightarrow> py_error + dormant_result" where
  "analyze_dormant_accounts accounts =
     (case suspicious_dormant_loop (basic_legit accounts) [] of
        Inl e \<Rightarrow> Inl e
      | Inr suspicious_dormant \<Rightarrow>
          (let sorted_dormant = sort_key (\<lambda>d. - d_account_age_days d) suspicious_dormant
           in Inr \<lparr>dormant_count = length sorted_dormant,
                    dormant_accounts = map d_username sorted_dormant,
                    dormant_details = sorted_dormant\<rparr>))"

record activity_detail =
  a_username :: string
  a_public_repos :: int
  a_followers :: int
  a_following :: int

fun suspicious_low_activity_loop :: "account list \<Rightarrow> activity_detail list \<Rightarrow> activity_detail list" where
  "suspicious_low_activity_loop [] suspicious_low_activity = suspicious_low_activity"
| "suspicious_low_activity_loop (a # rest) suspicious_low_activity =
     (if status a = Some ''deleted'' then suspicious_low_activity_loop rest suspicious_low_activity
      else
        (let repos = get_or (public_repos a) 0;
             followers_n = get_or (followers a) 0;
             following_n = get_or (following a) 0
         in if repos = 0 \<and> followers_n < 5 \<and> following_n < 10
            then suspicious_low_activity_loop rest
                   (suspicious_low_activity @
                      [\<lparr>a_username = username a, a_public_repos = repos,
                        a_followers = followers_n, a_following = following_n\<rparr>])
            else suspicious_low_activity_loop rest suspicious_low_activity))"

record activity_result =
  activity_count :: nat
  activity_accounts :: "string list"
  activity_details :: "activity_detail list"

definition analyze_activity_diversity :: "account list \<Rightarrow> activity_result" where
  "analyze_activity_diversity accounts =
     (let suspicious_low_activity = suspicious_low_activity_loop (basic_legit accounts) []
      in \<lparr>activity_count = length suspicious_low_activity,
           activity_accounts = map a_username suspicious_low_activity,
           activity_details = suspicious_low_activity\<rparr>)"

text \<open>
  \<open>generate_report\<close>: the counts of the saved summary. \<open>self.accounts[0]\<close> raises
  IndexError on an empty list before any percentage is computed.
\<close>

record report =
  accounts_analyzed :: int
  basic_suspicious :: int
  advanced_total :: int
  total_fake :: int
  fake_percentage :: rat
  legitimate :: int

definition all_suspicious ::
  "temporal_result \<Rightarrow> dormant_result \<Rightarrow> activity_result \<Rightarrow> string set" where
  "all_suspicious temporal dormant activity =
     temporal_accounts temporal \<union> set (dormant_accounts dormant)
       \<union> set (activity_accounts activity)"

definition generate_report ::
  "account list \<Rightarrow> temporal_result \<Rightarrow> dormant_result \<Rightarrow> activity_result \<Rightarrow> py_error + report" where
  "generate_report accounts temporal dormant activity =
     (let total = int (length accounts);
          basic_n = int (length (basic_fake accounts));
          advanced_fake = int (card (all_suspicious temporal dormant activity));
          total_fake_n = basic_n + advanced_fake
      in if accounts = [] then Inl IndexError
         else Inr \<lparr>accounts_analyzed = total, basic_suspicious = basic_n,
                   advanced_total = advanced_fake, total_fake = total_fake_n,
                   fake_percentage = of_int total_fake_n / of_int total * 100,
                   legitimate = total - total_fake_n\<rparr>)"

text \<open>\<open>main\<close>: the three analyses, then the report.\<close>

definition advanced_main :: "account list \<Rightarrow> py_error + report" where
  "advanced_main accounts =
     (let temporal = analyze_temporal_clustering 60 accounts in
      case analyze_dormant_accounts accounts of
        Inl e \<Rightarrow> Inl e
      | Inr dormant \<Rightarrow>
          (let activity = analyze_activity_diversity accounts
           in generate_report accounts temporal dormant activity))"

section \<open>Calendar keys\<close>

text \<open>
  The scripts group by \<open>datetime.date()\<close> and by \<open>date.isocalendar()\<close>. Both belong
  to Python's standard library; the definitions below follow its \<open>datetime\<close> module
  (\<open>_days_before_year\<close>, \<open>_ord2ymd\<close>, \<open>_isoweek1monday\<close>, \<open>isocalendar\<close>) on proleptic
  Gregorian ordinals, day 1 being 0001-01-01. A date is represented by its ordinal, which
  orders dates as Python does. Timestamps are taken in UTC, as the data has them.
\<close>

definition to_date :: "datetime \<Rightarrow> int" where
  "to_date ts = ts div 86400000000 + 719163"

definition days_before_year :: "int \<Rightarrow> int" where
  "days_before_year year = (let y = year - 1 in y * 365 + y div 4 - y div 100 + y div 400)"

definition ord2year :: "int \<Rightarrow> int" where
  "ord2year n =
     (let n0 = n - 1;
          n400 = n0 div 146097; r400 = n0 mod 146097;
          n100 = r400 div 36524; r100 = r400 mod 36524;
          n4 = r100 div 1461; r4 = r100 mod 1461;
          n1 = r4 div 365;
          year = n400 * 400 + 1 + n100 * 100 + n4 * 4 + n1
      in if n1 = 4 \<or> n100 = 4 then year - 1 else year)"

definition isoweek1monday :: "int \<Rightarrow> int" where
  "isoweek1monday year =
     (let firstday = days_before_year year + 1;
          firstweekday = (firstday + 6) mod 7;
          week1monday = firstday - firstweekday
      in if firstweekday > 3 then week1monday + 7 else week1monday)"

definition isocalendar :: "int \<Rightarrow> int \<times> int" where
  "isocalendar today =
     (let year = ord2year today;
          week = (today - isoweek1monday year) div 7
      in if week < 0 then (year - 1, (today - isoweek1monday (year - 1)) div 7 + 1)
         else if week \<ge> 52 \<and> today \<ge> isoweek1monday (year + 1) then (year + 1, 1)
         else (year, week + 1))"

text \<open>Decimal formatting: \<open>{n}\<close> and \<open>{n:02d}\<close> of a non-negative integer.\<close>

definition digit_char :: "nat \<Rightarrow> char" where
  "digit_char d = ''0123456789'' ! d"

fun str_nat :: "nat \<Rightarrow> string" where
  "str_nat n = (if n < 10 then [digit_char n] else str_nat (n div 10) @ [digit_char (n mod 10)])"

definition str_02d :: "nat \<Rightarrow> string" where
  "str_02d n = (if n < 10 then CHR ''0'' # str_nat n else str_nat n)"

definition week_key :: "datetime \<Rightarrow> string" where
  "week_key ts =
     (case isocalendar (to_date ts) of
        (iso_year, iso_week) \<Rightarrow> str_nat (nat iso_year) @ ''-W'' @ str_02d (nat iso_week))"

section \<open>Time bucketing\<close>

text \<open>
  A \<open>defaultdict(int)\<close> is an association list in insertion order; reading a key that
  was never written gives 0.
\<close>

type_synonym 'k counter = "('k \<times> int) list"

fun incr :: "'k \<Rightarrow> 'k counter \<Rightarrow> 'k counter" where
  "incr k [] = [(k, 1)]"
| "incr k ((k', n) # rest) = (if k = k' then (k', n + 1) # rest else (k', n) # incr k rest)"

fun lookup :: "'k counter \<Rightarrow> 'k \<Rightarrow> int" where
  "lookup [] k = 0"
| "lookup ((k', n) # rest) k = (if k = k' then n else lookup rest k)"

text \<open>
  The grouping loop shared by \<open>analyze_weekly_correlation\<close> (key: the ISO week string)
  and \<open>create_timeline_graph\<close> (key: the date); the state is the pair of counters
  \<open>(real, fake)\<close>.
\<close>

fun group_step ::
  "(datetime \<Rightarrow> 'k) \<Rightarrow> string set \<Rightarrow> account \<Rightarrow> 'k counter \<times> 'k counter
     \<Rightarrow> 'k counter \<times> 'k counter" where
  "group_step period_key fake_usernames acc (period_real, period_fake) =
     (let k = period_key (starred_at acc) in
      if username acc \<in> fake_usernames then (period_real, incr k period_fake)
      else (incr k period_real, period_fake))"

definition group_by_period ::
  "(datetime \<Rightarrow> 'k) \<Rightarrow> string set \<Rightarrow> account list \<Rightarrow> 'k counter \<times> 'k counter" where
  "group_by_period period_key fake_usernames accounts =
     fold (group_step period_key fake_usernames) accounts ([], [])"

text \<open>\<open>sorted(set(list(real.keys()) + list(fake.keys())))\<close>.\<close>

definition all_periods :: "('k::linorder) counter \<times> 'k counter \<Rightarrow> 'k list" where
  "all_periods counters = sort (remdups (map fst (fst counters) @ map fst (snd counters)))"

record 'k series =
  periods :: "'k list"
  series_real :: "int list"
  series_fake :: "int list"

definition bucket ::
  "(datetime \<Rightarrow> 'k::linorder) \<Rightarrow> string set \<Rightarrow> account list \<Rightarrow> 'k series" where
  "bucket period_key fake_usernames accounts =
     (let counters = group_by_period period_key fake_usernames accounts;
          ps = all_periods counters
      in \<lparr>periods = ps,
           series_real = map (lookup (fst counters)) ps,
           series_fake = map (lookup (snd counters)) ps\<rparr>)"

text \<open>The series that \<open>create_timeline_graph\<close> plots: one point per date.\<close>

definition daily_series :: "string set \<Rightarrow> account list \<Rightarrow> int series" where
  "daily_series fake_usernames accounts = bucket to_date fake_usernames accounts"

section \<open>analyze_weekly_correlation\<close>

text \<open>
  \<open>scipy.stats.pearsonr\<close> computes in floating point; its result (coefficient and
  p-value) is kept as the call itself, with the two sequences it is applied to.
\<close>

datatype pearson_result = Pearsonr "int list" "int list"

definition weekly_series :: "string set \<Rightarrow> account list \<Rightarrow> string series" where
  "weekly_series fake_usernames accounts = bucket week_key fake_usernames accounts"

text \<open>\<open>[w for w in all_weeks if w.startswith('2024')]\<close> and the two lists read for it.\<close>

definition startswith :: "string \<Rightarrow> string \<Rightarrow> bool" where
  "startswith w p = (take (length p) w = p)"

definition weeks_2024_of :: "string list \<Rightarrow> string list" where
  "weeks_2024_of weeks = filter (\<lambda>w. startswith w ''2024'') weeks"

text \<open>The week-over-week loop; the state is \<open>(inverse_weeks, same_direction_weeks)\<close>.\<close>

fun change_step :: "int list \<Rightarrow> int list \<Rightarrow> nat \<Rightarrow> int \<times> int \<Rightarrow> int \<times> int" where
  "change_step real_2024 fake_2024 i (inverse_weeks, same_direction_weeks) =
     (let prev_real = real_2024 ! (i - 1); curr_real = real_2024 ! i;
          prev_fake = fake_2024 ! (i - 1); curr_fake = fake_2024 ! i;
          real_change = curr_real - prev_real;
          fake_change = curr_fake - prev_fake
      in if (real_change < 0 \<and> fake_change > 0) \<or> (real_change > 0 \<and> fake_change < 0)
         then (inverse_weeks + 1, same_direction_weeks)
         else if \<bar>real_change\<bar> > 5 \<or> \<bar>fake_change\<bar> > 5
         then (inverse_weeks, same_direction_weeks + 1)
         else (inverse_weeks, same_direction_weeks))"

definition week_over_week :: "int list \<Rightarrow> int list \<Rightarrow> int \<times> int" where
  "week_over_week real_2024 fake_2024 =
     fold (change_step real_2024 fake_2024) [1..<length real_2024] (0, 0)"

definition inverse_pct_of :: "int \<Rightarrow> int \<Rightarrow> rat" where
  "inverse_pct_of inverse_weeks total_weeks =
     (if total_weeks > 0 then of_int inverse_weeks / of_int total_weeks * 100 else 0)"

text \<open>
  The moving-average loop prints one entry per flagged week. \<open>np.mean\<close> of four
  integers is their exact quotient by 4 (a float holds it exactly for counts of this
  size), so the averages and deviations are rationals here.
\<close>

record spike =
  spike_week :: string
  spike_real :: int
  spike_real_ma :: rat
  spike_real_dev :: rat
  spike_fake :: int
  spike_fake_ma :: rat
  spike_fake_dev :: rat

definition np_mean :: "int list \<Rightarrow> rat" where
  "np_mean xs = of_int (sum_list xs) / of_int (int (length xs))"

definition slice :: "'a list \<Rightarrow> nat \<Rightarrow> nat \<Rightarrow> 'a list" where
  "slice xs lo hi = take (hi - lo) (drop lo xs)"

definition ma_step ::
  "nat \<Rightarrow> string list \<Rightarrow> int list \<Rightarrow> int list \<Rightarrow> nat \<Rightarrow> spike list \<Rightarrow> spike list" where
  "ma_step window weeks_2024 real_2024 fake_2024 i printed =
     (let real_ma = np_mean (slice real_2024 (i - window) i);
          fake_ma = np_mean (slice fake_2024 (i - window) i);
          curr_real = real_2024 ! i;
          curr_fake = fake_2024 ! i;
          real_dev = of_int curr_real - real_ma;
          fake_dev = of_int curr_fake - fake_ma
      in if real_dev < - 5 \<and> fake_dev > 10
         then printed @
                [\<lparr>spike_week = weeks_2024 ! i, spike_real = curr_real, spike_real_ma = real_ma,
                  spike_real_dev = real_dev, spike_fake = curr_fake, spike_fake_ma = fake_ma,
                  spike_fake_dev = fake_dev\<rparr>]
         else printed)"

definition moving_average :: "string list \<Rightarrow> int list \<Rightarrow> int list \<Rightarrow> spike list" where
  "moving_average weeks_2024 real_2024 fake_2024 =
     (if length weeks_2024 \<ge> 8
      then fold (ma_step 4 weeks_2024 real_2024 fake_2024) [4..<length weeks_2024] []
      else [])"

record correlation_data =
  all_weeks :: "string list"
  real_counts :: "int list"
  fake_counts :: "int list"
  correlation :: "pearson_result option"
  correlation_2024 :: "pearson_result option"
  inverse_weeks_2024 :: int
  inverse_pct_2024 :: rat
  compensatory :: "spike list"

text \<open>
  The function returns the dictionary of the first seven fields; \<open>compensatory\<close> is what
  the moving-average section prints. \<open>real_2024\<close> and \<open>fake_2024\<close> are assigned under
  \<open>len(weeks_2024) > 4\<close> only, and read again only under \<open>len(weeks_2024) >= 8\<close>.
\<close>

definition analyze_weekly_correlation :: "account list \<Rightarrow> string set \<Rightarrow> correlation_data" where
  "analyze_weekly_correlation accounts fake_usernames =
     (let counters = group_by_period week_key fake_usernames accounts;
          weekly_real = fst counters; weekly_fake = snd counters;
          weeks = all_periods counters;
          reals = map (lookup weekly_real) weeks;
          fakes = map (lookup weekly_fake) weeks;
          weeks_2024 = weeks_2024_of weeks;
          real_2024 = map (lookup weekly_real) weeks_2024;
          fake_2024 = map (lookup weekly_fake) weeks_2024;
          inverse_weeks = fst (week_over_week real_2024 fake_2024);
          total_weeks = int (length weeks_2024) - 1
      in \<lparr>all_weeks = weeks, real_counts = reals, fake_counts = fakes,
           correlation = (if length reals > 2 then Some (Pearsonr reals fakes) else None),
           correlation_2024 =
             (if length weeks_2024 > 4 then Some (Pearsonr real_2024 fake_2024) else None),
           inverse_weeks_2024 = (if length weeks_2024 > 4 then inverse_weeks else 0),
           inverse_pct_2024 =
             (if length weeks_2024 > 4 then inverse_pct_of inverse_weeks total_weeks else 0),
           compensatory = moving_average weeks_2024 real_2024 fake_2024\<rparr>)"

section \<open>Predicates used to state the properties of the detectors\<close>

text \<open>What the dormant loop tests on a record that it did not skip.\<close>

definition dormant_test :: "account \<Rightarrow> bool" where
  "dormant_test acc =
     (case account_created acc of
        None \<Rightarrow> False
      | Some created \<Rightarrow>
          timedelta_days (starred_at acc) created > 365 \<and> get_or (public_repos acc) 0 < 3)"

definition lacks_created :: "account \<Rightarrow> bool" where
  "lacks_created acc = (\<not> skip_cond acc \<and> account_created acc = None)"



text \<open>The usernames of the records that the dormant loop flags when it completes.\<close>

definition flagged_dormant :: "account list \<Rightarrow> string set" where
  "flagged_dormant accounts =
     set (map username (filter (\<lambda>acc. \<not> basic_flagged acc \<and> dormant_test acc) accounts))"

section \<open>Example records\<close>

text \<open>A record with the two required keys only, starred at 2024-06-15T12:00:00Z.\<close>

definition day_us :: int where
  "day_us = 86400000000"

definition minute_us :: int where
  "minute_us = 60000000"

definition t0 :: datetime where
  "t0 = 1718452800000000"

definition mk_account :: "string \<Rightarrow> datetime \<Rightarrow> account" where
  "mk_account u ts =
     \<lparr>username = u, starred_at = ts, account_created = None, status = None,
      is_suspicious = None, public_repos = None, followers = None, following = None\<rparr>"

text \<open>An account created 400 days before it starred, with the given number of repositories.\<close>

definition old_account :: "string \<Rightarrow> int \<Rightarrow> account" where
  "old_account u repos =
     (mk_account u t0)\<lparr>account_created := Some (t0 - 400 * day_us), status := Some ''active'',
        public_repos := Some repos, followers := Some 50, following := Some 50\<rparr>"

text \<open>An active account whose record has no \<open>account_created\<close> key.\<close>

definition no_created_account :: account where
  "no_created_account =
     (mk_account ''nocreated'' t0)\<lparr>status := Some ''active'', public_repos := Some 20,
        followers := Some 50, following := Some 50\<rparr>"

text \<open>An account whose creation time is one day after its star.\<close>

definition late_created_account :: account where
  "late_created_account =
     (mk_account ''late'' t0)\<lparr>account_created := Some (t0 + day_us), status := Some ''active'',
        public_repos := Some 0, followers := Some 50, following := Some 50\<rparr>"

text \<open>A deleted account, which has no \<open>account_created\<close> key either.\<close>

definition deleted_account :: account where
  "deleted_account = (mk_account ''ghost'' t0)\<lparr>status := Some ''deleted''\<rparr>"

text \<open>
  Two records with one username: the first deleted, the second an active account created
  400 days before its star.
\<close>

definition dup_snapshot :: "account list" where
  "dup_snapshot = [(mk_account ''x'' t0)\<lparr>status := Some ''deleted''\<rparr>, old_account ''x'' 2]"

section \<open>The Temporal Cluster Detector in the words of the specification\<close>

text \<open>
  The events outside the basic flags, sorted ascending by \<open>starred_at\<close>, are cut into
  clusters: the next event joins the current cluster iff its gap in minutes since the
  last event of that cluster is at most the threshold, otherwise the current cluster is
  closed and the event starts a new one; the last cluster is closed at the end of the
  events. A closed cluster flags every member iff it has at least 10 members.
\<close>

definition gap_within :: "int \<Rightarrow> string \<times> datetime \<Rightarrow> string \<times> datetime \<Rightarrow> bool" where
  "gap_within threshold prev next_ev = (diff_minutes (snd next_ev) (snd prev) \<le> of_int threshold)"

fun spec_clusters ::
  "int \<Rightarrow> (string \<times> datetime) list \<Rightarrow> (string \<times> datetime) list
     \<Rightarrow> (string \<times> datetime) list list" where
  "spec_clusters threshold cur [] = [cur]"
| "spec_clusters threshold cur (e # es) =
     (if gap_within threshold (last cur) e then spec_clusters threshold (cur @ [e]) es
      else cur # spec_clusters threshold [e] es)"

definition spec_qualifying ::
  "int \<Rightarrow> account list \<Rightarrow> (string \<times> datetime) list list" where
  "spec_qualifying threshold accounts =
     (case map (\<lambda>a. (username a, starred_at a))
             (sort_key starred_at (filter (\<lambda>a. \<not> basic_flagged a) accounts)) of
        [] \<Rightarrow> []
      | e # es \<Rightarrow> filter (\<lambda>c. length c \<ge> 10) (spec_clusters threshold [e] es))"

definition spec_temporal_flagged :: "int \<Rightarrow> account list \<Rightarrow> string set" where
  "spec_temporal_flagged threshold accounts =
     \<Union> (set (map (\<lambda>c. set (map fst c)) (spec_qualifying threshold accounts)))"

text \<open>The usernames of the clusters of size at least 10 among the given clusters.\<close>

definition flag_all :: "(string \<times> datetime) list list \<Rightarrow> string set" where
  "flag_all cs = \<Union> (set (map (\<lambda>c. set (map fst c)) (filter (\<lambda>c. length c \<ge> 10) cs)))"

section \<open>Example snapshots for the temporal detector\<close>

text \<open>
  Eleven stars five minutes apart and a twelfth 200 minutes after the first; the twelfth
  record stands first in the file.
\<close>

definition burst_snapshot :: "account list" where
  "burst_snapshot =
     mk_account ''u11'' (t0 + 200 * minute_us) #
     map (\<lambda>(u, m). mk_account u (t0 + m * minute_us))
       [(''u0'', 0), (''u1'', 5), (''u2'', 10), (''u3'', 15), (''u4'', 20), (''u5'', 25),
        (''u6'', 30), (''u7'', 35), (''u8'', 40), (''u9'', 45), (''u10'', 50)]"

text \<open>\<open>n\<close> stars, each exactly 60 minutes after the one before.\<close>

definition hourly_snapshot :: "nat \<Rightarrow> account list" where
  "hourly_snapshot n = map (\<lambda>i. mk_account (str_nat i) (t0 + int i * 60 * minute_us)) [0..<n]"

text \<open>Eleven stars ten minutes apart: the first and the last are 100 minutes apart.\<close>

definition spread_snapshot :: "account list" where
  "spread_snapshot =
     map (\<lambda>(u, m). mk_account u (t0 + m * minute_us))
       [(''s0'', 0), (''s1'', 10), (''s2'', 20), (''s3'', 30), (''s4'', 40), (''s5'', 50),
        (''s6'', 60), (''s7'', 70), (''s8'', 80), (''s9'', 90), (''s10'', 100)]"

text \<open>The events of the hourly snapshot, as the detectors pair them.\<close>

definition hourly_events :: "nat \<Rightarrow> (string \<times> datetime) list" where
  "hourly_events n = map (\<lambda>i. (str_nat i, t0 + int i * 60 * minute_us)) [0..<n]"

section \<open>The ensemble with its detectors run in a given order\<close>







text \<open>The candidate pool of the three advanced detectors, and what the low-activity loop tests.\<close>

definition pool :: "account list \<Rightarrow> account list" where
  "pool accounts = filter (\<lambda>a. \<not> basic_flagged a) accounts"

definition low_activity_test :: "account \<Rightarrow> bool" where
  "low_activity_test acc =
     (get_or (public_repos acc) 0 = 0 \<and> get_or (followers acc) 0 < 5
      \<and> get_or (following acc) 0 < 10)"

text \<open>
  A snapshot of four records: a deleted account, an old account with two repositories, an
  old account with no repository, one follower and one followed account, and a busy
  recent account.
\<close>

definition quiet_account :: account where
  "quiet_account =
     (mk_account ''quiet'' (t0 + 3 * day_us))\<lparr>account_created := Some (t0 - 400 * day_us),
        status := Some ''active'', public_repos := Some 0, followers := Some 1,
        following := Some 1\<rparr>"

definition busy_account :: account where
  "busy_account =
     (mk_account ''busy'' (t0 + 5 * day_us))\<lparr>account_created := Some (t0 - 30 * day_us),
        status := Some ''active'', is_suspicious := Some False, public_repos := Some 12,
        followers := Some 40, following := Some 7\<rparr>"

definition ensemble_snapshot :: "account list" where
  "ensemble_snapshot = [deleted_account, old_account ''old2'' 2, quiet_account, busy_account]"

text \<open>
  The ISO year and week of a record, and the order of two such pairs: earlier year, or
  the same year and an earlier week.
\<close>

definition iso_week :: "account \<Rightarrow> int \<times> int" where
  "iso_week acc = isocalendar (to_date (starred_at acc))"

definition week_before :: "int \<times> int \<Rightarrow> int \<times> int \<Rightarrow> bool" where
  "week_before p q = (fst p < fst q \<or> (fst p = fst q \<and> snd p < snd q))"

section \<open>Example snapshot for the bucketing\<close>

text \<open>
  Three stars: two on 2024-06-15 (ISO week 24) and one on 2024-06-24 (ISO week 26); the
  latest record stands first in the file.
\<close>

definition bucket_snapshot :: "account list" where
  "bucket_snapshot =
     [mk_account ''carol'' (t0 + 9 * day_us), mk_account ''alice'' t0,
      mk_account ''bob'' (t0 + 180 * minute_us)]"

text \<open>
  Two stars a year apart: 0999-01-10 (ISO week 2 of 999) and 1000-01-08 (ISO week 2 of
  1000), both at noon UTC.
\<close>

definition ancient_snapshot :: "account list" where
  "ancient_snapshot =
     [mk_account ''early'' (- 30640939200000000), mk_account ''late'' (- 30609576000000000)]"

section \<open>The weekly analysis in the words of the specification\<close>

text \<open>
  The local variables \<open>weeks_2024\<close>, \<open>real_2024\<close> and \<open>fake_2024\<close> of
  \<open>analyze_weekly_correlation\<close>, as functions of its arguments.
\<close>

definition weeks_2024 :: "account list \<Rightarrow> string set \<Rightarrow> string list" where
  "weeks_2024 accounts fake_usernames =
     weeks_2024_of (all_periods (group_by_period week_key fake_usernames accounts))"

definition real_2024 :: "account list \<Rightarrow> string set \<Rightarrow> int list" where
  "real_2024 accounts fake_usernames =
     map (lookup (fst (group_by_period week_key fake_usernames accounts)))
       (weeks_2024 accounts fake_usernames)"

definition fake_2024 :: "account list \<Rightarrow> string set \<Rightarrow> int list" where
  "fake_2024 accounts fake_usernames =
     map (lookup (snd (group_by_period week_key fake_usernames accounts)))
       (weeks_2024 accounts fake_usernames)"

text \<open>
  Inverse-direction counting: the pair \<open>(i - 1, i)\<close> is inverse iff the two deltas have
  strictly opposite signs.
\<close>

definition strictly_opposite :: "int \<Rightarrow> int \<Rightarrow> bool" where
  "strictly_opposite delta_real delta_fake = (sgn delta_real * sgn delta_fake = - 1)"

definition spec_inverse_pair :: "int list \<Rightarrow> int list \<Rightarrow> nat \<Rightarrow> bool" where
  "spec_inverse_pair real_series fake_series i =
     strictly_opposite (real_series ! i - real_series ! (i - 1))
       (fake_series ! i - fake_series ! (i - 1))"

definition spec_inverse_count :: "int list \<Rightarrow> int list \<Rightarrow> int" where
  "spec_inverse_count real_series fake_series =
     int (length (filter (spec_inverse_pair real_series fake_series) [1..<length real_series]))"

text \<open>
  Moving-average deviation: \<open>movingAvg(series, i) = mean(series[i-W..i-1])\<close>,
  \<open>deviation = series[i] - movingAvg(series, i)\<close>, and a period is a compensatory spike
  iff the real deviation is below -5 and the fake deviation above 10.
\<close>

definition spec_moving_avg :: "nat \<Rightarrow> int list \<Rightarrow> nat \<Rightarrow> rat" where
  "spec_moving_avg w series_values i = of_int (\<Sum>j = i - w..<i. series_values ! j) / of_nat w"

definition spec_deviation :: "nat \<Rightarrow> int list \<Rightarrow> nat \<Rightarrow> rat" where
  "spec_deviation w series_values i = of_int (series_values ! i) - spec_moving_avg w series_values i"

definition spec_spike :: "nat \<Rightarrow> int list \<Rightarrow> int list \<Rightarrow> nat \<Rightarrow> bool" where
  "spec_spike w real_series fake_series i =
     (spec_deviation w real_series i < - 5 \<and> spec_deviation w fake_series i > 10)"

definition spike_at :: "nat \<Rightarrow> string list \<Rightarrow> int list \<Rightarrow> int list \<Rightarrow> nat \<Rightarrow> spike" where
  "spike_at w weeks real_series fake_series i =
     \<lparr>spike_week = weeks ! i, spike_real = real_series ! i,
      spike_real_ma = spec_moving_avg w real_series i,
      spike_real_dev = spec_deviation w real_series i,
      spike_fake = fake_series ! i,
      spike_fake_ma = spec_moving_avg w fake_series i,
      spike_fake_dev = spec_deviation w fake_series i\<rparr>"

section \<open>Example snapshots for the weekly analysis\<close>

text \<open>
  \<open>stars prefix n ts\<close> are \<open>n\<close> records with usernames \<open>prefix0\<close>, \<open>prefix1\<close>, ... starred
  at \<open>ts\<close>. \<open>week_ts k\<close> is the Wednesday noon (UTC) of ISO week \<open>k + 1\<close> of 2024. A
  weekly snapshot holds, for every triple \<open>(k, r, f)\<close> of the given list, \<open>r\<close> records
  named \<open>r\<close>\<open>k\<close>\<open>_\<close>\<open>i\<close> and \<open>f\<close> records named \<open>f\<close>\<open>k\<close>\<open>_\<close>\<open>i\<close> starred at \<open>week_ts k\<close>; its
  fake-set holds the usernames of the latter.
\<close>

definition stars :: "string \<Rightarrow> nat \<Rightarrow> datetime \<Rightarrow> account list" where
  "stars prefix n ts = map (\<lambda>i. mk_account (prefix @ str_nat i) ts) [0..<n]"

definition week_ts :: "nat \<Rightarrow> datetime" where
  "week_ts k = 1704283200000000 + int k * 7 * day_us"

definition weekly_snapshot :: "(nat \<times> nat \<times> nat) list \<Rightarrow> account list" where
  "weekly_snapshot weeks =
     concat (map (\<lambda>(k, r, f).
                stars (''r'' @ str_nat k @ ''_'') r (week_ts k) @
                stars (''f'' @ str_nat k @ ''_'') f (week_ts k)) weeks)"

definition weekly_fakes :: "(nat \<times> nat \<times> nat) list \<Rightarrow> string set" where
  "weekly_fakes weeks =
     set (map username
            (concat (map (\<lambda>(k, r, f). stars (''f'' @ str_nat k @ ''_'') f (week_ts k)) weeks)))"

text \<open>The examples of the specification, and longer ones.\<close>

definition inverse_example :: "(nat \<times> nat \<times> nat) list" where
  "inverse_example = [(0, 10, 2), (1, 7, 6), (2, 9, 3)]"

definition inverse_example_5 :: "(nat \<times> nat \<times> nat) list" where
  "inverse_example_5 = [(0, 10, 2), (1, 7, 6), (2, 9, 3), (3, 6, 7), (4, 8, 4)]"

definition spike_example :: "(nat \<times> nat \<times> nat) list" where
  "spike_example = [(0, 10, 2), (1, 10, 2), (2, 10, 2), (3, 10, 2), (4, 3, 15)]"

definition spike_example_8 :: "(nat \<times> nat \<times> nat) list" where
  "spike_example_8 =
     [(0, 10, 2), (1, 10, 2), (2, 10, 2), (3, 10, 2), (4, 10, 2), (5, 10, 2), (6, 10, 2),
      (7, 3, 15)]"

section \<open>Decimal strings\<close>

declare str_nat.simps [simp del]

lemma str_nat_numeral [simp]:
  "str_nat (numeral k) =
     (if (numeral k :: nat) < 10 then [digit_char (numeral k)]
      else str_nat (numeral k div 10) @ [digit_char (numeral k mod 10)])"
  by (rule str_nat.simps)

lemma str_nat_0 [simp]: "str_nat 0 = ''0''"
  by (simp add: str_nat.simps [of 0] digit_char_def)

lemma str_nat_1 [simp]: "str_nat (Suc 0) = ''1''"
  by (simp add: str_nat.simps [of "Suc 0"] digit_char_def)

lemma str_nat_nonempty: "str_nat n \<noteq> []"
  by (subst str_nat.simps) simp

lemma str_nat_two_digits: "10 \<le> n \<Longrightarrow> 2 \<le> length (str_nat n)"
  using str_nat_nonempty [of "n div 10"]
  by (subst str_nat.simps) (cases "str_nat (n div 10)", simp_all)

section \<open>The dormant detector\<close>


lemma skip_cond_basic: "skip_cond acc = basic_flagged acc"
  by (auto simp: skip_cond_def basic_flagged_def)

lemma legit_cond_basic: "basic_legit_cond acc = (\<not> basic_flagged acc)"
  by (auto simp: basic_legit_cond_def basic_flagged_def)

lemma basic_legit_filter: "basic_legit accounts = filter (\<lambda>a. \<not> basic_flagged a) accounts"
  by (simp add: basic_legit_def basic_flagged_def [abs_def])

lemma basic_fake_filter: "basic_fake accounts = filter basic_flagged accounts"
  by (simp add: basic_fake_def basic_flagged_def [abs_def])

lemma dormant_loop_raises:
  "list_ex lacks_created accounts \<Longrightarrow>
   dormant_loop accounts suspicious = Inl (KeyError ''account_created'')"
  by (induction accounts arbitrary: suspicious)
     (auto simp: lacks_created_def Let_def split: option.splits)

lemma dormant_loop_returns:
  "\<not> list_ex lacks_created accounts \<Longrightarrow>
   dormant_loop accounts suspicious =
     Inr (suspicious \<union>
          set (map username (filter (\<lambda>acc. \<not> skip_cond acc \<and> dormant_test acc) accounts)))"
  by (induction accounts arbitrary: suspicious)
     (auto simp: lacks_created_def dormant_test_def Let_def split: option.splits)

lemma detect_dormant_char:
  "detect_dormant_accounts accounts =
     (if list_ex lacks_created accounts then Inl (KeyError ''account_created'')
      else Inr (flagged_dormant accounts))"
  by (auto simp: detect_dormant_accounts_def dormant_loop_raises dormant_loop_returns
        skip_cond_basic flagged_dormant_def)

lemma sd_loop_raises:
  "list_ex (\<lambda>a. status a \<noteq> Some ''deleted'' \<and> account_created a = None) xs \<Longrightarrow>
   suspicious_dormant_loop xs sd = Inl (KeyError ''account_created'')"
  by (induction xs arbitrary: sd) (auto simp: Let_def split: option.splits)

lemma sd_loop_returns:
  "\<not> list_ex (\<lambda>a. status a \<noteq> Some ''deleted'' \<and> account_created a = None) xs \<Longrightarrow>
   \<exists>ds. suspicious_dormant_loop xs sd = Inr (sd @ ds) \<and>
        map d_username ds =
          map username (filter (\<lambda>a. status a \<noteq> Some ''deleted'' \<and> dormant_test a) xs)"
proof (induction xs arbitrary: sd)
  case Nil
  then show ?case by simp
next
  case (Cons a xs)
  then have rest: "\<not> list_ex (\<lambda>a. status a \<noteq> Some ''deleted'' \<and> account_created a = None) xs"
    by simp
  show ?case
  proof (cases "status a = Some ''deleted''")
    case True
    then show ?thesis using Cons.IH [OF rest, of sd] by simp
  next
    case False
    with Cons.prems obtain created where c: "account_created a = Some created" by auto
    show ?thesis
    proof (cases "dormant_test a")
      case True
      define d where "d = \<lparr>d_username = username a,
        d_account_age_days = timedelta_days (starred_at a) created,
        d_public_repos = get_or (public_repos a) 0, d_followers = get_or (followers a) 0,
        d_following = get_or (following a) 0\<rparr>"
      from Cons.IH [OF rest, of "sd @ [d]"] obtain ds where
        ds: "suspicious_dormant_loop xs (sd @ [d]) = Inr ((sd @ [d]) @ ds)"
          "map d_username ds =
             map username (filter (\<lambda>a. status a \<noteq> Some ''deleted'' \<and> dormant_test a) xs)"
        by blast
      have "suspicious_dormant_loop (a # xs) sd = Inr (sd @ (d # ds))"
        using False c True ds(1) by (simp add: dormant_test_def Let_def d_def)
      moreover have "map d_username (d # ds) =
          map username (filter (\<lambda>a. status a \<noteq> Some ''deleted'' \<and> dormant_test a) (a # xs))"
        using False True ds(2) by (simp add: d_def)
      ultimately show ?thesis by blast
    next
      case nt: False
      from Cons.IH [OF rest, of sd] obtain ds where
        ds: "suspicious_dormant_loop xs sd = Inr (sd @ ds)"
          "map d_username ds =
             map username (filter (\<lambda>a. status a \<noteq> Some ''deleted'' \<and> dormant_test a) xs)"
        by blast
      have "suspicious_dormant_loop (a # xs) sd = Inr (sd @ ds)"
        using False c nt ds(1) by (auto simp: dormant_test_def Let_def)
      moreover have "map d_username ds =
          map username (filter (\<lambda>a. status a \<noteq> Some ''deleted'' \<and> dormant_test a) (a # xs))"
        using nt ds(2) by simp
      ultimately show ?thesis by blast
    qed
  qed
qed

lemma list_ex_basic_legit:
  "list_ex (\<lambda>a. status a \<noteq> Some ''deleted'' \<and> account_created a = None) (basic_legit accounts)
     = list_ex lacks_created accounts"
  by (auto simp: list_ex_iff basic_legit_def lacks_created_def skip_cond_def)

lemma analyze_dormant_raises:
  "list_ex lacks_created accounts \<Longrightarrow>
   analyze_dormant_accounts accounts = Inl (KeyError ''account_created'')"
  by (simp add: analyze_dormant_accounts_def sd_loop_raises list_ex_basic_legit)

lemma analyze_dormant_returns:
  assumes "\<not> list_ex lacks_created accounts"
  shows "\<exists>r. analyze_dormant_accounts accounts = Inr r \<and>
             set (dormant_accounts r) = flagged_dormant accounts"
proof -
  from assms have "\<not> list_ex (\<lambda>a. status a \<noteq> Some ''deleted'' \<and> account_created a = None)
      (basic_legit accounts)"
    by (simp add: list_ex_basic_legit)
  from sd_loop_returns [OF this, of "[]"] obtain ds where
    ds: "suspicious_dormant_loop (basic_legit accounts) [] = Inr ds"
      "map d_username ds = map username
         (filter (\<lambda>a. status a \<noteq> Some ''deleted'' \<and> dormant_test a) (basic_legit accounts))"
    by auto
  have "set (map d_username (sort_key (\<lambda>d. - d_account_age_days d) ds)) = set (map d_username ds)"
    by simp
  also have "\<dots> = flagged_dormant accounts"
    unfolding ds(2) by (auto simp: flagged_dormant_def basic_legit_def basic_flagged_def)
  finally show ?thesis
    using ds(1) by (simp add: analyze_dormant_accounts_def Let_def)
qed


text \<open>
  C1 (as amended). The dormant detector of each script skips exactly the basic-flagged
  records. A record that is not basic-flagged and has no \<open>account_created\<close> key ends the
  run with KeyError; otherwise the run returns the usernames of the records that pass the
  age and repository test. A record whose \<open>account_created\<close> is later than its
  \<open>starred_at\<close> never passes the test, so it is not flagged and does not end the run.
\<close>

theorem dormant_skip_or_raise:
  "detect_dormant_accounts accounts =
     (if list_ex lacks_created accounts then Inl (KeyError ''account_created'')
      else Inr (flagged_dormant accounts))
   \<and> (list_ex lacks_created accounts \<longrightarrow>
        analyze_dormant_accounts accounts = Inl (KeyError ''account_created''))
   \<and> (\<not> list_ex lacks_created accounts \<longrightarrow>
        (\<exists>r. analyze_dormant_accounts accounts = Inr r \<and>
             set (dormant_accounts r) = flagged_dormant accounts))
   \<and> (basic_flagged acc \<longrightarrow> \<not> lacks_created acc)
   \<and> (account_created acc = Some created \<and> starred_at acc < created \<longrightarrow>
        \<not> lacks_created acc \<and> \<not> dormant_test acc)"
proof -
  have "timedelta_days (starred_at acc) created \<le> 365" if "starred_at acc < created"
  proof -
    from that have "(starred_at acc - created) div 86400000000 < 0"
      by (simp add: div_neg_pos_less0)
    then show ?thesis by (simp add: timedelta_days_def)
  qed
  then show ?thesis
    using analyze_dormant_raises [of accounts] analyze_dormant_returns [of accounts]
    by (auto simp: detect_dormant_char lacks_created_def skip_cond_basic dormant_test_def)
qed

theorem dormant_skip_or_raise_witness:
  "detect_dormant_accounts [deleted_account, late_created_account, old_account ''old2'' 2]
     = Inr {''old2''}
   \<and> \<not> dormant_test late_created_account"
  using dormant_skip_or_raise
    [of "[deleted_account, late_created_account, old_account ''old2'' 2]"
        late_created_account "t0 + day_us"]
  by (simp add: flagged_dormant_def lacks_created_def skip_cond_def truthy_def get_or_def
        basic_flagged_def dormant_test_def timedelta_days_def deleted_account_def
        late_created_account_def old_account_def mk_account_def t0_def day_us_def)

theorem dormant_absent_created_counterexample:
  "detect_dormant_accounts [no_created_account] = Inl (KeyError ''account_created'')
   \<and> analyze_dormant_accounts [no_created_account] = Inl (KeyError ''account_created'')
   \<and> apply_full_detection [no_created_account] = Inl (KeyError ''account_created'')"
  by (simp add: detect_dormant_accounts_def analyze_dormant_accounts_def basic_legit_def
        apply_full_detection_def Let_def
        skip_cond_def truthy_def no_created_account_def mk_account_def)

text \<open>
  C5 (as amended). When every record outside the basic flags has \<open>account_created\<close>,
  the dormant detector returns, and its result is the set of usernames of the records that
  are not basic-flagged and whose age in whole days exceeds 365 while \<open>public_repos\<close> is
  below 3; with usernames unique, a record that is not basic-flagged is flagged iff it
  passes that test. When some record outside the basic flags lacks \<open>account_created\<close>,
  the detector raises KeyError and flags no record at all, whatever the other records
  are.
\<close>

theorem dormant_flag_iff:
  "((\<exists>acc\<in>set accounts. \<not> basic_flagged acc \<and> account_created acc = None) \<longrightarrow>
      detect_dormant_accounts accounts = Inl (KeyError ''account_created''))
   \<and> ((\<forall>acc\<in>set accounts. \<not> basic_flagged acc \<longrightarrow> account_created acc \<noteq> None) \<longrightarrow>
      (\<exists>s. detect_dormant_accounts accounts = Inr s \<and>
         s = set (map username (filter (\<lambda>acc. \<not> basic_flagged acc \<and>
               (\<exists>created. account_created acc = Some created \<and>
                  (starred_at acc - created) div 86400000000 > 365 \<and>
                  get_or (public_repos acc) 0 < 3)) accounts)) \<and>
         (distinct (map username accounts) \<longrightarrow>
            (\<forall>acc\<in>set accounts. \<not> basic_flagged acc \<longrightarrow>
               (username acc \<in> s \<longleftrightarrow>
                  (\<exists>created. account_created acc = Some created \<and>
                     (starred_at acc - created) div 86400000000 > 365 \<and>
                     get_or (public_repos acc) 0 < 3))))))"
proof (intro conjI impI)
  assume "\<exists>acc\<in>set accounts. \<not> basic_flagged acc \<and> account_created acc = None"
  then have "list_ex lacks_created accounts"
    by (auto simp: list_ex_iff lacks_created_def skip_cond_basic)
  then show "detect_dormant_accounts accounts = Inl (KeyError ''account_created'')"
    by (simp add: detect_dormant_char)
next
  assume "\<forall>acc\<in>set accounts. \<not> basic_flagged acc \<longrightarrow> account_created acc \<noteq> None"
  then have no: "\<not> list_ex lacks_created accounts"
    by (auto simp: list_ex_iff lacks_created_def skip_cond_basic)
  have test: "dormant_test acc \<longleftrightarrow>
      (\<exists>created. account_created acc = Some created \<and>
         (starred_at acc - created) div 86400000000 > 365 \<and> get_or (public_repos acc) 0 < 3)"
    for acc
    by (auto simp: dormant_test_def timedelta_days_def split: option.splits)
  have inj: "username a = username b \<Longrightarrow> a = b"
    if "distinct (map username accounts)" "a \<in> set accounts" "b \<in> set accounts" for a b
    using that by (meson distinct_map inj_onD)
  show "\<exists>s. detect_dormant_accounts accounts = Inr s \<and>
         s = set (map username (filter (\<lambda>acc. \<not> basic_flagged acc \<and>
               (\<exists>created. account_created acc = Some created \<and>
                  (starred_at acc - created) div 86400000000 > 365 \<and>
                  get_or (public_repos acc) 0 < 3)) accounts)) \<and>
         (distinct (map username accounts) \<longrightarrow>
            (\<forall>acc\<in>set accounts. \<not> basic_flagged acc \<longrightarrow>
               (username acc \<in> s \<longleftrightarrow>
                  (\<exists>created. account_created acc = Some created \<and>
                     (starred_at acc - created) div 86400000000 > 365 \<and>
                     get_or (public_repos acc) 0 < 3))))"
    using no inj unfolding detect_dormant_char flagged_dormant_def test [symmetric]
    by auto
qed

theorem dormant_flag_iff_witness:
  "detect_dormant_accounts [old_account ''old2'' 2, old_account ''old3'' 3] = Inr {''old2''}
   \<and> detect_dormant_accounts [no_created_account, old_account ''old3'' 3]
       = Inl (KeyError ''account_created'')"
  using dormant_flag_iff [of "[old_account ''old2'' 2, old_account ''old3'' 3]"]
    dormant_flag_iff [of "[no_created_account, old_account ''old3'' 3]"]
  by (auto simp: old_account_def no_created_account_def mk_account_def basic_flagged_def
        truthy_def get_or_def t0_def day_us_def)

theorem dormant_qualifying_not_flagged_counterexample:
  "\<not> basic_flagged (old_account ''old2'' 2)
   \<and> account_created (old_account ''old2'' 2) = Some (t0 - 400 * day_us)
   \<and> (starred_at (old_account ''old2'' 2) - (t0 - 400 * day_us)) div 86400000000 = 400
   \<and> get_or (public_repos (old_account ''old2'' 2)) 0 = 2
   \<and> detect_dormant_accounts [old_account ''old2'' 2, no_created_account]
       = Inl (KeyError ''account_created'')
   \<and> detect_dormant_accounts [no_created_account, old_account ''old2'' 2]
       = Inl (KeyError ''account_created'')"
  by (simp add: detect_dormant_accounts_def skip_cond_def basic_flagged_def truthy_def
        get_or_def timedelta_days_def Let_def old_account_def no_created_account_def
        mk_account_def t0_def day_us_def)

section \<open>The temporal cluster detector\<close>

lemma insort_key_map:
  "insort_key f (g x) (map g xs) = map g (insort_key (\<lambda>a. f (g a)) x xs)"
  by (induction xs) auto

lemma sort_key_map:
  "sort_key f (map g xs) = map g (sort_key (\<lambda>a. f (g a)) xs)"
  by (induction xs) (auto simp: insort_key_map)

lemma timestamps_of_sorted:
  "timestamps_of accounts =
     map (\<lambda>a. (username a, starred_at a))
       (sort_key starred_at (filter (\<lambda>a. \<not> basic_flagged a) accounts))"
  by (simp add: timestamps_of_def sort_key_map legit_cond_basic [abs_def])

lemma fold_cluster_step:
  "(case fold (cluster_step th) es (cur, susp) of (c, s) \<Rightarrow> flag_cluster c s)
     = susp \<union> flag_all (spec_clusters th cur es)"
proof (induction es arbitrary: cur susp)
  case Nil
  show ?case by (auto simp: flag_cluster_def flag_all_def)
next
  case (Cons e es)
  obtain u ts where e: "e = (u, ts)" by (cases e)
  show ?case
  proof (cases "gap_within th (last cur) e")
    case True
    then show ?thesis using Cons.IH [of "cur @ [e]" susp]
      by (simp add: e gap_within_def)
  next
    case False
    then show ?thesis using Cons.IH [of "[e]" "flag_cluster cur susp"]
      by (auto simp: e gap_within_def flag_cluster_def flag_all_def)
  qed
qed

lemma fold_clusters_step:
  "(case fold (clusters_step th) es (cur, cs) of
      (c, cs') \<Rightarrow> if length c \<ge> 10 then cs' @ [c] else cs')
     = cs @ filter (\<lambda>c. length c \<ge> 10) (spec_clusters th cur es)"
proof (induction es arbitrary: cur cs)
  case Nil
  show ?case by simp
next
  case (Cons e es)
  obtain u ts where e: "e = (u, ts)" by (cases e)
  show ?case
  proof (cases "gap_within th (last cur) e")
    case True
    then show ?thesis using Cons.IH [of "cur @ [e]" cs]
      by (simp add: e gap_within_def)
  next
    case False
    then show ?thesis
      using Cons.IH [of "[e]" "if length cur \<ge> 10 then cs @ [cur] else cs"]
      by (simp add: e gap_within_def)
  qed
qed

lemma find_clusters_spec:
  "find_clusters th (timestamps_of accounts) = spec_qualifying th accounts"
  unfolding find_clusters_def spec_qualifying_def timestamps_of_sorted [symmetric]
  using fold_clusters_step [of th _ _ "[]"]
  by (auto split: list.splits)

lemma detect_temporal_spec:
  "detect_temporal_clustering th accounts = spec_temporal_flagged th accounts"
  unfolding detect_temporal_clustering_def spec_temporal_flagged_def spec_qualifying_def
    timestamps_of_sorted [symmetric]
  using fold_cluster_step [of th _ _ "{}"]
  by (auto simp: flag_all_def split: list.splits)

lemma analyze_temporal_spec:
  "clusters (analyze_temporal_clustering th accounts) = spec_qualifying th accounts"
  "temporal_accounts (analyze_temporal_clustering th accounts) = spec_temporal_flagged th accounts"
  "temporal_count (analyze_temporal_clustering th accounts) = card (spec_temporal_flagged th accounts)"
proof -
  have ts: "sort_key snd (map (\<lambda>a. (username a, starred_at a)) (basic_legit accounts))
      = timestamps_of accounts"
    by (simp add: timestamps_of_def basic_legit_def basic_legit_cond_def [abs_def])
  show "clusters (analyze_temporal_clustering th accounts) = spec_qualifying th accounts"
    "temporal_accounts (analyze_temporal_clustering th accounts) = spec_temporal_flagged th accounts"
    "temporal_count (analyze_temporal_clustering th accounts) = card (spec_temporal_flagged th accounts)"
    by (simp_all add: analyze_temporal_clustering_def Let_def ts find_clusters_spec
          spec_temporal_flagged_def)
qed

text \<open>Structure of the clusters: they cut the sorted events without loss or reordering.\<close>

lemma concat_spec_clusters: "concat (spec_clusters th cur es) = cur @ es"
  by (induction es arbitrary: cur) auto

lemma spec_clusters_nonempty:
  "cur \<noteq> [] \<Longrightarrow> c \<in> set (spec_clusters th cur es) \<Longrightarrow> c \<noteq> []"
  by (induction es arbitrary: cur) (auto split: if_splits)

lemma spec_clusters_chained:
  "successively (gap_within th) cur \<Longrightarrow> c \<in> set (spec_clusters th cur es) \<Longrightarrow>
   successively (gap_within th) c"
proof (induction es arbitrary: cur)
  case Nil
  then show ?case by simp
next
  case (Cons e es)
  show ?case
  proof (cases "gap_within th (last cur) e")
    case True
    with Cons.prems(1) have "successively (gap_within th) (cur @ [e])"
      by (auto simp: successively_append_iff)
    with Cons.IH [of "cur @ [e]"] Cons.prems(2) True show ?thesis by simp
  next
    case False
    with Cons.IH [of "[e]"] Cons.prems show ?thesis by auto
  qed
qed

lemma spec_clusters_single:
  "cur \<noteq> [] \<Longrightarrow> successively (gap_within th) (cur @ es) \<Longrightarrow>
   spec_clusters th cur es = [cur @ es]"
proof (induction es arbitrary: cur)
  case Nil
  then show ?case by simp
next
  case (Cons e es)
  from Cons.prems have "gap_within th (last cur) e"
    by (auto simp: successively_append_iff)
  moreover have "successively (gap_within th) ((cur @ [e]) @ es)"
    using Cons.prems(2) by simp
  ultimately show ?case using Cons.IH [of "cur @ [e]"] by simp
qed


text \<open>
  C4. Both temporal detectors compute the clusters of the specification: the events
  outside the basic flags, sorted ascending by \<open>starred_at\<close>, are cut where the gap to
  the last event of the current cluster exceeds the threshold, the final cluster is closed
  after the last event, and exactly the members of clusters of size at least 10 are
  flagged.
\<close>

theorem temporal_detector_refines_spec:
  "detect_temporal_clustering th accounts = spec_temporal_flagged th accounts
   \<and> clusters (analyze_temporal_clustering th accounts) = spec_qualifying th accounts
   \<and> temporal_accounts (analyze_temporal_clustering th accounts)
       = spec_temporal_flagged th accounts"
  by (simp add: detect_temporal_spec analyze_temporal_spec)

theorem temporal_detector_refines_spec_witness:
  "detect_temporal_clustering 60 burst_snapshot =
     {''u0'', ''u1'', ''u2'', ''u3'', ''u4'', ''u5'', ''u6'', ''u7'', ''u8'', ''u9'', ''u10''}
   \<and> ''u11'' \<notin> detect_temporal_clustering 60 burst_snapshot
   \<and> spec_temporal_flagged 60 burst_snapshot = detect_temporal_clustering 60 burst_snapshot
   \<and> length (clusters (analyze_temporal_clustering 60 burst_snapshot)) = 1"
proof -
  have ev: "detect_temporal_clustering 60 burst_snapshot =
     {''u0'', ''u1'', ''u2'', ''u3'', ''u4'', ''u5'', ''u6'', ''u7'', ''u8'', ''u9'', ''u10''}"
    by (simp add: detect_temporal_clustering_def timestamps_of_def burst_snapshot_def
          mk_account_def basic_legit_cond_def truthy_def t0_def minute_us_def diff_minutes_def
          flag_cluster_def Let_def)
  have cl: "length (clusters (analyze_temporal_clustering 60 burst_snapshot)) = 1"
    by (simp add: analyze_temporal_clustering_def find_clusters_def basic_legit_def
          burst_snapshot_def mk_account_def truthy_def t0_def minute_us_def diff_minutes_def
          Let_def)
  from temporal_detector_refines_spec [of 60 burst_snapshot]
  have "spec_temporal_flagged 60 burst_snapshot = detect_temporal_clustering 60 burst_snapshot"
    by simp
  with ev cl show ?thesis by simp
qed

text \<open>The hourly snapshot: one cluster holding every event.\<close>

lemma hourly_timestamps: "timestamps_of (hourly_snapshot n) = hourly_events n"
proof -
  have keep: "filter basic_legit_cond (hourly_snapshot n) = hourly_snapshot n"
    by (simp add: hourly_snapshot_def basic_legit_cond_def mk_account_def truthy_def)
  have evs: "map (\<lambda>acc. (username acc, starred_at acc)) (hourly_snapshot n) = hourly_events n"
    by (simp add: hourly_snapshot_def hourly_events_def mk_account_def)
  have "sorted (map snd (hourly_events n))"
    by (simp add: hourly_events_def comp_def sorted_map minute_us_def
          sorted_wrt_mono_rel [OF _ sorted_wrt_upt])
  then show ?thesis
    by (simp add: timestamps_of_def keep evs sort_key_id_if_sorted)
qed

lemma hourly_chained: "successively (gap_within 60) (hourly_events n)"
  by (simp add: successively_conv_nth hourly_events_def gap_within_def diff_minutes_def
        minute_us_def algebra_simps)

lemma hourly_clusters:
  assumes "10 \<le> n"
  shows "find_clusters 60 (hourly_events n) = [hourly_events n]"
proof -
  from assms obtain e es where split: "hourly_events n = e # es"
    by (cases "hourly_events n") (auto simp: hourly_events_def)
  have "spec_clusters 60 [e] es = [[e] @ es]"
    using hourly_chained [of n] by (intro spec_clusters_single) (simp_all add: split)
  moreover have "length (hourly_events n) = n" by (simp add: hourly_events_def)
  ultimately show ?thesis
    using assms fold_clusters_step [of 60 es "[e]" "[]"]
    by (simp add: find_clusters_def split)
qed


text \<open>
  C10. For every bound \<open>B\<close> there is a snapshot in which two different usernames are
  flagged as members of one temporal cluster although their stars lie more than 60
  minutes, and more than \<open>B\<close> minutes, apart.
\<close>

theorem temporal_cluster_span_unbounded:
  "\<exists>accounts c a b.
     c \<in> set (clusters (analyze_temporal_clustering 60 accounts)) \<and> a \<in> set c \<and> b \<in> set c \<and>
     fst a \<in> detect_temporal_clustering 60 accounts \<and>
     fst b \<in> detect_temporal_clustering 60 accounts \<and> fst a \<noteq> fst b \<and>
     60 < diff_minutes (snd b) (snd a) \<and> of_nat B < diff_minutes (snd b) (snd a)"
proof -
  define n where "n = B + 11"
  define a where "a = (str_nat 0, t0)"
  define b where "b = (str_nat (B + 10), t0 + int (B + 10) * 60 * minute_us)"
  have n10: "10 \<le> n" by (simp add: n_def)
  have cl: "clusters (analyze_temporal_clustering 60 (hourly_snapshot n)) = [hourly_events n]"
    using hourly_clusters [OF n10]
    by (simp add: analyze_temporal_spec(1) find_clusters_spec [symmetric] hourly_timestamps)
  have fl: "detect_temporal_clustering 60 (hourly_snapshot n) = set (map fst (hourly_events n))"
    using hourly_clusters [OF n10]
    by (simp add: detect_temporal_spec spec_temporal_flagged_def find_clusters_spec [symmetric]
          hourly_timestamps)
  have "a = hourly_events n ! 0" "b = hourly_events n ! (B + 10)"
    by (simp_all add: a_def b_def hourly_events_def n_def)
  moreover have "length (hourly_events n) = n" by (simp add: hourly_events_def)
  ultimately have mem: "a \<in> set (hourly_events n)" "b \<in> set (hourly_events n)"
    by (simp_all add: n_def)
  have ne: "fst a \<noteq> fst b"
  proof
    assume "fst a = fst b"
    then have "str_nat (B + 10) = ''0''" by (simp add: a_def b_def)
    then have "length (str_nat (B + 10)) = 1" by simp
    with str_nat_two_digits [of "B + 10"] show False by simp
  qed
  have d: "diff_minutes (snd b) (snd a) = of_nat (60 * (B + 10))"
    by (simp add: a_def b_def diff_minutes_def minute_us_def)
  have "60 < diff_minutes (snd b) (snd a)" "of_nat B < diff_minutes (snd b) (snd a)"
    unfolding d by simp_all
  with cl fl mem ne show ?thesis
    by (intro exI [of _ "hourly_snapshot n"] exI [of _ "hourly_events n"] exI [of _ a]
          exI [of _ b]) simp
qed

theorem temporal_cluster_span_unbounded_witness:
  "(\<exists>accounts c a b.
     c \<in> set (clusters (analyze_temporal_clustering 60 accounts)) \<and> a \<in> set c \<and> b \<in> set c \<and>
     fst a \<in> detect_temporal_clustering 60 accounts \<and>
     fst b \<in> detect_temporal_clustering 60 accounts \<and> fst a \<noteq> fst b \<and>
     60 < diff_minutes (snd b) (snd a) \<and> 1440 < diff_minutes (snd b) (snd a))
   \<and> length (clusters (analyze_temporal_clustering 60 spread_snapshot)) = 1
   \<and> (''s0'', t0) \<in> set (hd (clusters (analyze_temporal_clustering 60 spread_snapshot)))
   \<and> (''s10'', t0 + 100 * minute_us)
        \<in> set (hd (clusters (analyze_temporal_clustering 60 spread_snapshot)))
   \<and> {''s0'', ''s10''} \<subseteq> detect_temporal_clustering 60 spread_snapshot
   \<and> diff_minutes (t0 + 100 * minute_us) t0 = 100"
proof -
  have "clusters (analyze_temporal_clustering 60 spread_snapshot) =
     [map (\<lambda>(u, m). (u, t0 + m * minute_us))
       [(''s0'', 0), (''s1'', 10), (''s2'', 20), (''s3'', 30), (''s4'', 40), (''s5'', 50),
        (''s6'', 60), (''s7'', 70), (''s8'', 80), (''s9'', 90), (''s10'', 100)]]"
    by (simp add: analyze_temporal_clustering_def find_clusters_def basic_legit_def
          spread_snapshot_def mk_account_def truthy_def t0_def minute_us_def
          diff_minutes_def Let_def)
  moreover have "{''s0'', ''s10''} \<subseteq> detect_temporal_clustering 60 spread_snapshot"
    by (simp add: detect_temporal_clustering_def timestamps_of_def spread_snapshot_def
          mk_account_def basic_legit_cond_def truthy_def t0_def minute_us_def diff_minutes_def
          flag_cluster_def Let_def)
  moreover have "diff_minutes (t0 + 100 * minute_us) t0 = 100"
    by (simp add: diff_minutes_def minute_us_def)
  ultimately show ?thesis
    using temporal_cluster_span_unbounded [of 1440] by simp
qed

section \<open>The ensemble\<close>



lemma flagged_dormant_pool:
  "flagged_dormant accounts = set (map username (filter dormant_test (pool accounts)))"
  by (auto simp: flagged_dormant_def pool_def)







lemma spec_qualifying_members:
  assumes "c \<in> set (spec_qualifying th accounts)"
  shows "set c \<subseteq> set (map (\<lambda>a. (username a, starred_at a)) (pool accounts))"
proof -
  define evs where "evs = map (\<lambda>a. (username a, starred_at a))
      (sort_key starred_at (filter (\<lambda>a. \<not> basic_flagged a) accounts))"
  have sets: "set evs = set (map (\<lambda>a. (username a, starred_at a)) (pool accounts))"
    by (simp add: evs_def pool_def)
  show ?thesis
  proof (cases evs)
    case Nil
    with assms show ?thesis by (simp add: spec_qualifying_def evs_def [symmetric])
  next
    case (Cons e es)
    with assms have "c \<in> set (spec_clusters th [e] es)"
      by (simp add: spec_qualifying_def evs_def [symmetric])
    then have "set c \<subseteq> set (concat (spec_clusters th [e] es))" by auto
    then have "set c \<subseteq> set evs" by (simp add: concat_spec_clusters Cons)
    then show ?thesis by (simp only: sets)
  qed
qed

lemma temporal_within_pool:
  "detect_temporal_clustering th accounts \<subseteq> set (map username (pool accounts))"
proof
  fix u assume "u \<in> detect_temporal_clustering th accounts"
  then obtain c where c: "c \<in> set (spec_qualifying th accounts)" "u \<in> fst ` set c"
    by (auto simp: detect_temporal_spec spec_temporal_flagged_def)
  with spec_qualifying_members [OF c(1)] show "u \<in> set (map username (pool accounts))"
    by auto
qed








section \<open>The report of the advanced analysis\<close>

lemma low_details_loop:
  "map a_username (suspicious_low_activity_loop xs sl) =
     map a_username sl @
       map username (filter (\<lambda>a. status a \<noteq> Some ''deleted'' \<and> low_activity_test a) xs)"
  by (induction xs arbitrary: sl) (auto simp: low_activity_test_def Let_def)

lemma pool_basic_legit: "basic_legit accounts = pool accounts"
  by (simp add: basic_legit_filter pool_def)

lemma activity_accounts_char:
  "set (activity_accounts (analyze_activity_diversity accounts))
     = set (map username (filter low_activity_test (pool accounts)))"
  by (auto simp: analyze_activity_diversity_def Let_def low_details_loop pool_basic_legit
        pool_def basic_flagged_def)

lemma advanced_within_pool:
  assumes "analyze_dormant_accounts accounts = Inr dormant"
  shows "all_suspicious (analyze_temporal_clustering 60 accounts) dormant
           (analyze_activity_diversity accounts) \<subseteq> set (map username (pool accounts))"
proof -
  have no: "\<not> list_ex lacks_created accounts"
    using assms analyze_dormant_raises [of accounts] by auto
  from analyze_dormant_returns [OF no] assms
  have "set (dormant_accounts dormant) = flagged_dormant accounts" by auto
  then show ?thesis
    using temporal_within_pool [of 60 accounts]
    by (auto simp: all_suspicious_def analyze_temporal_spec(2) detect_temporal_spec [symmetric]
          flagged_dormant_pool activity_accounts_char)
qed

lemma pool_disjoint_basic:
  assumes "distinct (map username accounts)"
  shows "set (map username (pool accounts)) \<inter> set (map username (basic_fake accounts)) = {}"
proof -
  have inj: "inj_on username (set accounts)"
    using assms by (simp add: distinct_map)
  have "set (pool accounts) \<inter> set (basic_fake accounts) = {}"
    by (auto simp: pool_def basic_fake_filter)
  moreover have "set (pool accounts) \<subseteq> set accounts" "set (basic_fake accounts) \<subseteq> set accounts"
    by (auto simp: pool_def basic_fake_filter)
  ultimately show ?thesis
    using inj by (auto dest: inj_onD)
qed

lemma basic_fake_card:
  assumes "distinct (map username accounts)"
  shows "length (basic_fake accounts) = card (set (map username (basic_fake accounts)))"
proof -
  have "distinct (map username (basic_fake accounts))"
    using assms by (simp add: basic_fake_filter distinct_map_filter)
  then show ?thesis by (simp add: distinct_card del: set_map)
qed

lemma advanced_main_returns:
  "advanced_main accounts = Inr r \<longleftrightarrow>
     accounts \<noteq> [] \<and>
     (\<exists>dormant. analyze_dormant_accounts accounts = Inr dormant \<and>
        generate_report accounts (analyze_temporal_clustering 60 accounts) dormant
          (analyze_activity_diversity accounts) = Inr r)"
  by (auto simp: advanced_main_def Let_def generate_report_def split: sum.splits)

text \<open>
  C9 (as amended). With usernames unique in the snapshot, whenever the advanced analysis produces
  its report, the union of the three advanced detectors' flagged sets is disjoint from the
  basic-flagged usernames, the basic count is the number of basic-flagged usernames, and
  the reported total is the cardinality of the combined set of usernames. The report is
  produced unless the snapshot is empty or a record outside the basic flags lacks
  \<open>account_created\<close>.
\<close>

theorem total_fake_counts_once:
  assumes "distinct (map username accounts)"
  shows
    "(advanced_main accounts = Inr r \<longrightarrow>
        (\<exists>dormant advanced.
           analyze_dormant_accounts accounts = Inr dormant \<and>
           advanced = all_suspicious (analyze_temporal_clustering 60 accounts) dormant
                        (analyze_activity_diversity accounts) \<and>
           advanced \<inter> set (map username (basic_fake accounts)) = {} \<and>
           basic_suspicious r = int (card (set (map username (basic_fake accounts)))) \<and>
           advanced_total r = int (card advanced) \<and>
           total_fake r = int (card (set (map username (basic_fake accounts)) \<union> advanced))))
     \<and> (accounts \<noteq> [] \<and> \<not> list_ex lacks_created accounts \<longrightarrow>
          (\<exists>r'. advanced_main accounts = Inr r'))"
proof (intro conjI impI)
  assume "accounts \<noteq> [] \<and> \<not> list_ex lacks_created accounts"
  then show "\<exists>r'. advanced_main accounts = Inr r'"
    using analyze_dormant_returns [of accounts]
    by (auto simp: advanced_main_def generate_report_def Let_def)
next
  assume "advanced_main accounts = Inr r"
  then obtain dormant where d: "analyze_dormant_accounts accounts = Inr dormant"
    and g: "generate_report accounts (analyze_temporal_clustering 60 accounts) dormant
              (analyze_activity_diversity accounts) = Inr r"
    by (auto simp: advanced_main_returns)
  define advanced where "advanced = all_suspicious (analyze_temporal_clustering 60 accounts)
      dormant (analyze_activity_diversity accounts)"
  define basic where "basic = set (map username (basic_fake accounts))"
  have sub: "advanced \<subseteq> set (map username (pool accounts))"
    unfolding advanced_def by (rule advanced_within_pool [OF d])
  have disj: "advanced \<inter> basic = {}"
    using sub pool_disjoint_basic [OF assms] unfolding basic_def by blast
  have fin: "finite advanced" "finite basic"
    using sub by (auto simp: basic_def intro: finite_subset)
  have r: "basic_suspicious r = int (length (basic_fake accounts))"
    "advanced_total r = int (card advanced)"
    "total_fake r = int (length (basic_fake accounts)) + int (card advanced)"
    using g by (auto simp: generate_report_def Let_def advanced_def split: if_splits)
  have len: "length (basic_fake accounts) = card basic"
    unfolding basic_def by (rule basic_fake_card [OF assms])
  have cu: "card (basic \<union> advanced) = card basic + card advanced"
    using fin disj by (simp add: card_Un_disjoint Int_commute)
  have bs: "basic_suspicious r = int (card basic)"
    using r(1) len by simp
  have tot: "total_fake r = int (card (basic \<union> advanced))"
    using r(3) len cu by simp
  have adv: "advanced = all_suspicious (analyze_temporal_clustering 60 accounts) dormant
      (analyze_activity_diversity accounts)"
    by (rule advanced_def)
  from d adv disj bs r(2) tot
  have "analyze_dormant_accounts accounts = Inr dormant \<and>
      advanced = all_suspicious (analyze_temporal_clustering 60 accounts) dormant
                   (analyze_activity_diversity accounts) \<and>
      advanced \<inter> basic = {} \<and>
      basic_suspicious r = int (card basic) \<and>
      advanced_total r = int (card advanced) \<and>
      total_fake r = int (card (basic \<union> advanced))"
    by blast
  then show "\<exists>dormant advanced.
           analyze_dormant_accounts accounts = Inr dormant \<and>
           advanced = all_suspicious (analyze_temporal_clustering 60 accounts) dormant
                        (analyze_activity_diversity accounts) \<and>
           advanced \<inter> set (map username (basic_fake accounts)) = {} \<and>
           basic_suspicious r = int (card (set (map username (basic_fake accounts)))) \<and>
           advanced_total r = int (card advanced) \<and>
           total_fake r = int (card (set (map username (basic_fake accounts)) \<union> advanced))"
    unfolding basic_def by blast
qed


theorem total_fake_counts_once_witness:
  "advanced_main ensemble_snapshot =
     Inr \<lparr>accounts_analyzed = 4, basic_suspicious = 1, advanced_total = 2, total_fake = 3,
          fake_percentage = 75, legitimate = 1\<rparr>
   \<and> card ({''ghost''} \<union> {''old2'', ''quiet''}) = 3
   \<and> map username (basic_fake ensemble_snapshot) = [''ghost'']"
proof -
  have dist: "distinct (map username ensemble_snapshot)"
    by (simp add: ensemble_snapshot_def deleted_account_def old_account_def quiet_account_def
          busy_account_def mk_account_def)
  have t: "analyze_temporal_clustering 60 ensemble_snapshot =
      \<lparr>clusters = [], temporal_count = 0, temporal_accounts = {}\<rparr>"
    by (simp add: analyze_temporal_clustering_def find_clusters_def basic_legit_def truthy_def
          diff_minutes_def Let_def ensemble_snapshot_def deleted_account_def old_account_def
          quiet_account_def busy_account_def mk_account_def t0_def day_us_def)
  have d: "\<exists>dd. analyze_dormant_accounts ensemble_snapshot =
      Inr \<lparr>dormant_count = 2, dormant_accounts = [''quiet'', ''old2''], dormant_details = dd\<rparr>"
    by (simp add: analyze_dormant_accounts_def basic_legit_def truthy_def get_or_def
          timedelta_days_def Let_def ensemble_snapshot_def deleted_account_def
          old_account_def quiet_account_def busy_account_def mk_account_def t0_def day_us_def)
  have l: "map a_username (activity_details (analyze_activity_diversity ensemble_snapshot))
      = [''quiet'']"
    "activity_accounts (analyze_activity_diversity ensemble_snapshot) = [''quiet'']"
    by (simp_all add: analyze_activity_diversity_def basic_legit_def truthy_def get_or_def
          Let_def ensemble_snapshot_def deleted_account_def old_account_def quiet_account_def
          busy_account_def mk_account_def)
  have b: "map username (basic_fake ensemble_snapshot) = [''ghost'']"
    by (simp add: basic_fake_def truthy_def ensemble_snapshot_def deleted_account_def
          old_account_def quiet_account_def busy_account_def mk_account_def)
  have len: "length (basic_fake ensemble_snapshot) = 1" "length ensemble_snapshot = 4"
    "ensemble_snapshot \<noteq> []"
    by (simp_all add: basic_fake_def truthy_def ensemble_snapshot_def deleted_account_def
          old_account_def quiet_account_def busy_account_def mk_account_def)
  from d obtain dd where
    dd: "analyze_dormant_accounts ensemble_snapshot =
      Inr \<lparr>dormant_count = 2, dormant_accounts = [''quiet'', ''old2''], dormant_details = dd\<rparr>"
    by blast
  have c: "card ({''ghost''} \<union> {''old2'', ''quiet''}) = 3" by simp
  have main: "advanced_main ensemble_snapshot =
     Inr \<lparr>accounts_analyzed = 4, basic_suspicious = 1, advanced_total = 2, total_fake = 3,
          fake_percentage = 75, legitimate = 1\<rparr>"
    by (simp add: advanced_main_def generate_report_def all_suspicious_def Let_def t dd l len)
  from total_fake_counts_once [OF dist, of
      "\<lparr>accounts_analyzed = 4, basic_suspicious = 1, advanced_total = 2, total_fake = 3,
          fake_percentage = 75, legitimate = 1\<rparr>"] main b c
  show ?thesis by simp
qed

theorem total_fake_duplicate_username_counterexample:
  "advanced_main dup_snapshot =
     Inr \<lparr>accounts_analyzed = 2, basic_suspicious = 1, advanced_total = 1, total_fake = 2,
          fake_percentage = 100, legitimate = 0\<rparr>
   \<and> map username (basic_fake dup_snapshot) = [''x'']
   \<and> analyze_dormant_accounts dup_snapshot =
       Inr \<lparr>dormant_count = 1, dormant_accounts = [''x''],
            dormant_details =
              [\<lparr>d_username = ''x'', d_account_age_days = 400, d_public_repos = 2,
                d_followers = 50, d_following = 50\<rparr>]\<rparr>
   \<and> card (set (map username (basic_fake dup_snapshot)) \<union> {''x''}) = 1"
proof -
  have t: "analyze_temporal_clustering 60 dup_snapshot =
      \<lparr>clusters = [], temporal_count = 0, temporal_accounts = {}\<rparr>"
    by (simp add: analyze_temporal_clustering_def find_clusters_def basic_legit_def truthy_def
          Let_def dup_snapshot_def old_account_def mk_account_def)
  have d: "analyze_dormant_accounts dup_snapshot =
       Inr \<lparr>dormant_count = 1, dormant_accounts = [''x''],
            dormant_details =
              [\<lparr>d_username = ''x'', d_account_age_days = 400, d_public_repos = 2,
                d_followers = 50, d_following = 50\<rparr>]\<rparr>"
    by (simp add: analyze_dormant_accounts_def basic_legit_def truthy_def get_or_def
          timedelta_days_def Let_def dup_snapshot_def old_account_def mk_account_def t0_def
          day_us_def)
  have l: "activity_accounts (analyze_activity_diversity dup_snapshot) = []"
    by (simp add: analyze_activity_diversity_def basic_legit_def truthy_def get_or_def Let_def
          dup_snapshot_def old_account_def mk_account_def)
  have b: "map username (basic_fake dup_snapshot) = [''x'']"
    "length (basic_fake dup_snapshot) = 1" "length dup_snapshot = 2" "dup_snapshot \<noteq> []"
    by (simp_all add: basic_fake_def truthy_def dup_snapshot_def old_account_def
          mk_account_def)
  have "advanced_main dup_snapshot =
     Inr \<lparr>accounts_analyzed = 2, basic_suspicious = 1, advanced_total = 1, total_fake = 2,
          fake_percentage = 100, legitimate = 0\<rparr>"
    by (simp add: advanced_main_def generate_report_def all_suspicious_def Let_def t d l b)
  moreover have "card (set (map username (basic_fake dup_snapshot)) \<union> {''x''}) = 1"
    by (simp only: b(1)) simp
  ultimately show ?thesis using b(1) d by simp
qed

section \<open>Calendar keys and their order\<close>

text \<open>Years and ISO weeks of a day ordinal.\<close>

lemma div_step:
  fixes y k :: int
  assumes "0 < k"
  shows "y div k - (y - 1) div k = (if k dvd y then 1 else 0)"
proof (cases "k dvd y")
  case True
  then have y: "y = k * (y div k)" by simp
  have "y - 1 = k * (y div k - 1) + (k - 1)"
    using y by (simp add: algebra_simps)
  then have "(y - 1) div k = y div k - 1"
    using assms by (intro int_div_pos_eq [of "y - 1" k "y div k - 1" "k - 1"]) simp_all
  with True show ?thesis by simp
next
  case False
  then have "y mod k \<noteq> 0" by (simp add: dvd_eq_mod_eq_0)
  moreover have "0 \<le> y mod k" "y mod k < k" using assms by simp_all
  ultimately have r: "0 \<le> y mod k - 1" "y mod k - 1 < k" by simp_all
  have "y - 1 = k * (y div k) + (y mod k - 1)" by simp
  then have "(y - 1) div k = y div k"
    using r by (intro int_div_pos_eq [of "y - 1" k "y div k" "y mod k - 1"]) simp_all
  with False show ?thesis by simp
qed

lemma days_before_year_step:
  "365 \<le> days_before_year (y + 1) - days_before_year y"
  "days_before_year (y + 1) - days_before_year y \<le> 366"
proof -
  have d4: "y div 4 - (y - 1) div 4 = (if 4 dvd y then 1 else 0)"
    and d100: "y div 100 - (y - 1) div 100 = (if 100 dvd y then 1 else 0)"
    and d400: "y div 400 - (y - 1) div 400 = (if 400 dvd y then 1 else 0)"
    by (simp_all add: div_step)
  have imp: "100 dvd y \<Longrightarrow> 4 dvd y" "400 dvd y \<Longrightarrow> 100 dvd y"
    by (auto elim: dvd_trans [rotated])
  have eq: "days_before_year (y + 1) - days_before_year y =
      365 + (y div 4 - (y - 1) div 4) - (y div 100 - (y - 1) div 100)
        + (y div 400 - (y - 1) div 400)"
    by (simp add: days_before_year_def Let_def algebra_simps)
  show "365 \<le> days_before_year (y + 1) - days_before_year y"
    "days_before_year (y + 1) - days_before_year y \<le> 366"
    unfolding eq d4 d100 d400 using imp by auto
qed

lemma days_before_year_decomp:
  assumes "0 \<le> b" "b \<le> 3" "0 \<le> c" "c \<le> 24" "0 \<le> d" "d \<le> 3"
  shows "days_before_year (400 * a + 100 * b + 4 * c + d + 1)
           = 146097 * a + 36524 * b + 1461 * c + 365 * d"
proof -
  define y where "y = 400 * a + 100 * b + 4 * c + d"
  have "y div 4 = 100 * a + 25 * b + c"
    using assms by (intro int_div_pos_eq [of y 4 _ d]) (simp_all add: y_def)
  moreover have "y div 100 = 4 * a + b"
    using assms by (intro int_div_pos_eq [of y 100 _ "4 * c + d"]) (simp_all add: y_def)
  moreover have "y div 400 = a"
    using assms by (intro int_div_pos_eq [of y 400 _ "100 * b + 4 * c + d"]) (simp_all add: y_def)
  ultimately show ?thesis
    by (simp add: days_before_year_def Let_def y_def [symmetric]) (simp add: y_def)
qed


lemma ord2year_bounds:
  "days_before_year (ord2year n) < n" "n \<le> days_before_year (ord2year n + 1)"
proof -
  define a where "a = (n - 1) div 146097"
  define r400 where "r400 = (n - 1) mod 146097"
  define b where "b = r400 div 36524"
  define r100 where "r100 = r400 mod 36524"
  define c where "c = r100 div 1461"
  define r4 where "r4 = r100 mod 1461"
  define d where "d = r4 div 365"
  define e where "e = r4 mod 365"
  have n: "n = 146097 * a + r400 + 1" and r400: "0 \<le> r400" "r400 < 146097"
    by (simp_all add: a_def r400_def)
  have r400_eq: "r400 = 36524 * b + r100" and r100: "0 \<le> r100" "r100 < 36524"
    by (simp_all add: b_def r100_def)
  have r100_eq: "r100 = 1461 * c + r4" and r4: "0 \<le> r4" "r4 < 1461"
    by (simp_all add: c_def r4_def)
  have r4_eq: "r4 = 365 * d + e" and e: "0 \<le> e" "e < 365"
    by (simp_all add: d_def e_def)
  have b: "0 \<le> b" "b \<le> 4"
    using r400 r400_eq r100 by linarith+
  have c: "0 \<le> c" "c \<le> 24"
    using r100 r100_eq r4 by linarith+
  have d: "0 \<le> d" "d \<le> 4"
    using r4 r4_eq e by linarith+
  have year: "ord2year n =
      (if d = 4 \<or> b = 4 then 400 * a + 100 * b + 4 * c + d
       else 400 * a + 100 * b + 4 * c + d + 1)"
    by (simp add: ord2year_def Let_def a_def r400_def b_def r100_def c_def r4_def d_def)
  consider (century) "b = 4" | (quad) "b \<le> 3" "d = 4" | (plain) "b \<le> 3" "d \<le> 3"
    using b d by linarith
  then have "days_before_year (ord2year n) < n \<and> n \<le> days_before_year (ord2year n + 1)"
  proof cases
    case century
    then have z: "r100 = 0" "c = 0" "r4 = 0" "d = 0" "e = 0"
      using r400 r400_eq r100 r100_eq r4 r4_eq e c d by linarith+
    have y: "ord2year n = 400 * a + 100 * 3 + 4 * 24 + 3 + 1"
      using century z by (simp add: year)
    have y1: "ord2year n + 1 = 400 * (a + 1) + 100 * 0 + 4 * 0 + 0 + 1"
      using century z by (simp add: year)
    have "days_before_year (ord2year n) = 146097 * a + 145731"
      unfolding y by (subst days_before_year_decomp) simp_all
    moreover have "days_before_year (ord2year n + 1) = 146097 * a + 146097"
      unfolding y1 by (subst days_before_year_decomp) simp_all
    moreover have "n = 146097 * a + 146097"
      using n r400_eq century z by simp
    ultimately show ?thesis by simp
  next
    case quad
    then have z: "e = 0" "c \<le> 23"
      using r100 r100_eq r4 r4_eq e c by linarith+
    have y: "ord2year n = 400 * a + 100 * b + 4 * c + 3 + 1"
      using quad by (simp add: year)
    have y1: "ord2year n + 1 = 400 * a + 100 * b + 4 * (c + 1) + 0 + 1"
      using quad by (simp add: year)
    have "days_before_year (ord2year n) = 146097 * a + 36524 * b + 1461 * c + 1095"
      unfolding y using b c quad by (subst days_before_year_decomp) simp_all
    moreover have "days_before_year (ord2year n + 1)
        = 146097 * a + 36524 * b + 1461 * c + 1461"
      unfolding y1 using b c quad z by (subst days_before_year_decomp) simp_all
    moreover have "n = 146097 * a + 36524 * b + 1461 * c + 1461"
      using n r400_eq r100_eq r4_eq quad z by simp
    ultimately show ?thesis by simp
  next
    case plain
    have y: "ord2year n = 400 * a + 100 * b + 4 * c + d + 1"
      using plain by (simp add: year)
    have dby: "days_before_year (ord2year n) = 146097 * a + 36524 * b + 1461 * c + 365 * d"
      unfolding y using b c d plain by (subst days_before_year_decomp) simp_all
    have nn: "n = 146097 * a + 36524 * b + 1461 * c + 365 * d + e + 1"
      using n r400_eq r100_eq r4_eq by simp
    from days_before_year_step(1) [of "ord2year n"] dby nn e show ?thesis by simp
  qed
  then show "days_before_year (ord2year n) < n" "n \<le> days_before_year (ord2year n + 1)"
    by simp_all
qed


lemma isoweek1monday_bounds:
  "days_before_year y - 2 \<le> isoweek1monday y" "isoweek1monday y \<le> days_before_year y + 4"
proof -
  define w where "w = (days_before_year y + 1 + 6) mod 7"
  have w: "0 \<le> w" "w < 7" by (simp_all add: w_def)
  have m: "isoweek1monday y =
      (if 3 < w then days_before_year y + 1 - w + 7 else days_before_year y + 1 - w)"
    by (simp add: isoweek1monday_def Let_def w_def)
  show "days_before_year y - 2 \<le> isoweek1monday y" "isoweek1monday y \<le> days_before_year y + 4"
    unfolding m using w by auto
qed

lemma isocalendar_week_range:
  "1 \<le> snd (isocalendar n)" "snd (isocalendar n) \<le> 54"
proof -
  define y where "y = ord2year n"
  define m where "m = isoweek1monday y"
  define m' where "m' = isoweek1monday (y - 1)"
  have n: "days_before_year y < n" "n \<le> days_before_year (y + 1)"
    using ord2year_bounds [of n] by (simp_all add: y_def)
  have len: "days_before_year (y + 1) \<le> days_before_year y + 366"
    "days_before_year y \<le> days_before_year (y - 1) + 366"
    "days_before_year (y - 1) + 365 \<le> days_before_year y"
    using days_before_year_step [of y] days_before_year_step [of "y - 1"] by simp_all
  have mb: "days_before_year y - 2 \<le> m" "m \<le> days_before_year y + 4"
    "days_before_year (y - 1) - 2 \<le> m'" "m' \<le> days_before_year (y - 1) + 4"
    using isoweek1monday_bounds [of y] isoweek1monday_bounds [of "y - 1"]
    by (simp_all add: m_def m'_def)
  have iso: "isocalendar n =
      (if (n - m) div 7 < 0 then (y - 1, (n - m') div 7 + 1)
       else if 52 \<le> (n - m) div 7 \<and> isoweek1monday (y + 1) \<le> n then (y + 1, 1)
       else (y, (n - m) div 7 + 1))"
    by (simp add: isocalendar_def Let_def y_def m_def m'_def)
  consider (prev) "(n - m) div 7 < 0"
    | (roll) "\<not> (n - m) div 7 < 0" "52 \<le> (n - m) div 7 \<and> isoweek1monday (y + 1) \<le> n"
    | (same) "\<not> (n - m) div 7 < 0" "\<not> (52 \<le> (n - m) div 7 \<and> isoweek1monday (y + 1) \<le> n)"
    by blast
  then have "1 \<le> snd (isocalendar n) \<and> snd (isocalendar n) \<le> 54"
  proof cases
    case prev
    then have "n < m" by (simp add: div_neg_pos_less0 neg_imp_zdiv_neg_iff)
    then have lo: "362 \<le> n - m'" and hi: "n - m' \<le> 371"
      using n len mb by linarith+
    have "362 div 7 \<le> (n - m') div 7" "(n - m') div 7 \<le> 371 div 7"
      using lo hi by (intro zdiv_mono1; simp)+
    with prev show ?thesis by (simp add: iso)
  next
    case roll
    then show ?thesis by (simp add: iso)
  next
    case same
    have "n - m \<le> 368" using n len mb by linarith
    then have "(n - m) div 7 \<le> 368 div 7" by (intro zdiv_mono1) simp_all
    with same show ?thesis by (auto simp: iso)
  qed
  then show "1 \<le> snd (isocalendar n)" "snd (isocalendar n) \<le> 54" by simp_all
qed


text \<open>Order of decimal strings and of week keys.\<close>

lemma digit_char_code: "d < 10 \<Longrightarrow> of_char (digit_char d) = 48 + d"
proof -
  assume "d < 10"
  then consider "d = 0" | "d = 1" | "d = 2" | "d = 3" | "d = 4" | "d = 5" | "d = 6"
    | "d = 7" | "d = 8" | "d = 9"
    by (auto simp: eval_nat_numeral less_Suc_eq)
  then show ?thesis by cases (simp_all add: digit_char_def)
qed

lemma digit_char_less: "a < 10 \<Longrightarrow> b < 10 \<Longrightarrow> digit_char a < digit_char b \<longleftrightarrow> a < b"
  by (simp add: less_char_def digit_char_code)

lemma digit_char_eq: "a < 10 \<Longrightarrow> b < 10 \<Longrightarrow> digit_char a = digit_char b \<longleftrightarrow> a = b"
proof
  assume "a < 10" "b < 10" "digit_char a = digit_char b"
  then have "(of_char (digit_char a) :: nat) = of_char (digit_char b)" by simp
  with \<open>a < 10\<close> \<open>b < 10\<close> show "a = b" by (simp add: digit_char_code)
qed simp

lemma lex10:
  fixes qx rx qy ry :: nat
  assumes "rx < 10" "ry < 10"
  shows "10 * qx + rx < 10 * qy + ry \<longleftrightarrow> qx < qy \<or> (qx = qy \<and> rx < ry)"
  using assms by (cases qx qy rule: linorder_cases) auto

lemma less_div10:
  fixes x y :: nat
  shows "x < y \<longleftrightarrow> x div 10 < y div 10 \<or> (x div 10 = y div 10 \<and> x mod 10 < y mod 10)"
proof -
  have "x < y \<longleftrightarrow> 10 * (x div 10) + x mod 10 < 10 * (y div 10) + y mod 10"
    by simp
  also have "\<dots> \<longleftrightarrow> x div 10 < y div 10 \<or> (x div 10 = y div 10 \<and> x mod 10 < y mod 10)"
    by (rule lex10) simp_all
  finally show ?thesis .
qed

lemma eq_div10:
  fixes x y :: nat
  shows "x = y \<longleftrightarrow> x div 10 = y div 10 \<and> x mod 10 = y mod 10"
proof
  assume "x div 10 = y div 10 \<and> x mod 10 = y mod 10"
  then have "10 * (x div 10) + x mod 10 = 10 * (y div 10) + y mod 10" by simp
  then show "x = y" by simp
qed simp

lemma less_append_same_length:
  fixes xs ys :: "('a::linorder) list"
  shows "length xs = length ys \<Longrightarrow> xs @ us < ys @ vs \<longleftrightarrow> xs < ys \<or> (xs = ys \<and> us < vs)"
  by (induction xs ys rule: list_induct2) auto

lemma str_nat_snoc: "10 \<le> n \<Longrightarrow> str_nat n = str_nat (n div 10) @ [digit_char (n mod 10)]"
  by (subst str_nat.simps) simp

lemma str_nat_digit: "n < 10 \<Longrightarrow> str_nat n = [digit_char n]"
  by (subst str_nat.simps) simp

lemma str_nat_order:
  "length (str_nat m) = length (str_nat n) \<Longrightarrow>
     (str_nat m < str_nat n \<longleftrightarrow> m < n) \<and> (str_nat m = str_nat n \<longleftrightarrow> m = n)"
proof (induction m arbitrary: n rule: str_nat.induct)
  case (1 m)
  show ?case
  proof (cases "m < 10")
    case True
    have "n < 10"
    proof (rule ccontr)
      assume "\<not> n < 10"
      then have "2 \<le> length (str_nat n)" by (simp add: str_nat_two_digits)
      with "1.prems" True show False by (simp add: str_nat_digit)
    qed
    with True show ?thesis
      by (simp add: str_nat_digit digit_char_less digit_char_eq)
  next
    case False
    then have m: "10 \<le> m" by simp
    have n: "10 \<le> n"
    proof (rule ccontr)
      assume "\<not> 10 \<le> n"
      then have "length (str_nat n) = 1" by (simp add: str_nat_digit)
      with "1.prems" str_nat_two_digits [OF m] show False by simp
    qed
    have len: "length (str_nat (m div 10)) = length (str_nat (n div 10))"
      using "1.prems" by (simp add: str_nat_snoc m n)
    from "1.IH" [OF False len]
    have ih: "str_nat (m div 10) < str_nat (n div 10) \<longleftrightarrow> m div 10 < n div 10"
      "str_nat (m div 10) = str_nat (n div 10) \<longleftrightarrow> m div 10 = n div 10"
      by simp_all
    have "str_nat m < str_nat n \<longleftrightarrow> m < n"
      unfolding str_nat_snoc [OF m] str_nat_snoc [OF n]
      by (simp add: less_append_same_length len ih digit_char_less less_div10 [of m n])
    moreover have "str_nat m = str_nat n \<longleftrightarrow> m = n"
      unfolding str_nat_snoc [OF m] str_nat_snoc [OF n]
      by (simp add: ih digit_char_eq eq_div10 [of m n])
    ultimately show ?thesis by simp
  qed
qed

lemma str_nat_length_4: "1000 \<le> n \<Longrightarrow> n \<le> 9999 \<Longrightarrow> length (str_nat n) = 4"
proof -
  assume n: "1000 \<le> n" "n \<le> 9999"
  then have a: "10 \<le> n" "10 \<le> n div 10" "10 \<le> n div 10 div 10" "n div 10 div 10 div 10 < 10"
    by linarith+
  show ?thesis
    by (simp add: str_nat_snoc [OF a(1)] str_nat_snoc [OF a(2)] str_nat_snoc [OF a(3)]
          str_nat_digit [OF a(4)])
qed

lemma str_02d_digits: "n < 100 \<Longrightarrow> str_02d n = [digit_char (n div 10), digit_char (n mod 10)]"
proof (cases "n < 10")
  case True
  then show ?thesis by (simp add: str_02d_def str_nat_digit digit_char_def)
next
  case False
  assume "n < 100"
  with False have "10 \<le> n" "n div 10 < 10" by linarith+
  then show ?thesis by (simp add: str_02d_def str_nat_snoc str_nat_digit)
qed

lemma str_02d_order:
  "m < 100 \<Longrightarrow> n < 100 \<Longrightarrow> str_02d m < str_02d n \<longleftrightarrow> m < n"
  by (simp add: str_02d_digits digit_char_less digit_char_eq less_div10 [of m n])

lemma week_label_order:
  assumes "1000 \<le> y" "y \<le> 9999" "1000 \<le> y'" "y' \<le> 9999" "w < 100" "w' < 100"
  shows "str_nat y @ ''-W'' @ str_02d w < str_nat y' @ ''-W'' @ str_02d w'
           \<longleftrightarrow> y < y' \<or> (y = y' \<and> w < w')"
proof -
  have len: "length (str_nat y) = length (str_nat y')"
    using assms by (simp add: str_nat_length_4)
  from str_nat_order [OF len] show ?thesis
    using assms by (simp add: less_append_same_length len str_02d_order)
qed

section \<open>Time bucketing\<close>

lemma lookup_incr: "lookup (incr k c) k' = (if k' = k then lookup c k + 1 else lookup c k')"
  by (induction c) auto

lemma keys_incr: "set (map fst (incr k c)) = insert k (set (map fst c))"
proof (induction c)
  case Nil
  show ?case by simp
next
  case (Cons p c)
  obtain k' n where p: "p = (k', n)" by (cases p)
  show ?case
  proof (cases "k = k'")
    case True
    then show ?thesis by (simp add: p)
  next
    case False
    then show ?thesis using Cons.IH by (simp add: p insert_commute)
  qed
qed

text \<open>The number of records of a period on one side of the classification.\<close>

lemma group_fold_real:
  "lookup (fst (fold (group_step key fake) accounts (r0, f0))) k =
     lookup r0 k + int (length (filter (\<lambda>a. key (starred_at a) = k \<and> username a \<notin> fake) accounts))"
  by (induction accounts arbitrary: r0 f0) (auto simp: Let_def lookup_incr)

lemma group_fold_fake:
  "lookup (snd (fold (group_step key fake) accounts (r0, f0))) k =
     lookup f0 k + int (length (filter (\<lambda>a. key (starred_at a) = k \<and> username a \<in> fake) accounts))"
  by (induction accounts arbitrary: r0 f0) (auto simp: Let_def lookup_incr)

lemma group_fold_keys:
  "set (map fst (fst (fold (group_step key fake) accounts (r0, f0)))) \<union>
   set (map fst (snd (fold (group_step key fake) accounts (r0, f0)))) =
     set (map fst r0) \<union> set (map fst f0) \<union> (\<lambda>a. key (starred_at a)) ` set accounts"
proof (induction accounts arbitrary: r0 f0)
  case Nil
  show ?case by simp
next
  case (Cons a accounts)
  show ?case
  proof (cases "username a \<in> fake")
    case True
    then show ?thesis
      using Cons.IH [of r0 "incr (key (starred_at a)) f0"]
      by (auto simp: Let_def keys_incr simp del: set_map)
  next
    case False
    then show ?thesis
      using Cons.IH [of "incr (key (starred_at a)) r0" f0]
      by (auto simp: Let_def keys_incr simp del: set_map)
  qed
qed

lemma all_periods_sorted: "sorted_wrt (<) (all_periods counters)"
  by (simp add: all_periods_def strict_sorted_iff)

lemma all_periods_set:
  "set (all_periods (group_by_period key fake accounts)) = (\<lambda>a. key (starred_at a)) ` set accounts"
  using group_fold_keys [of key fake accounts "[]" "[]"]
  by (simp add: all_periods_def group_by_period_def del: set_map)

lemma bucket_real:
  "series_real (bucket key fake accounts) =
     map (\<lambda>k. int (length (filter (\<lambda>a. key (starred_at a) = k \<and> username a \<notin> fake) accounts)))
       (periods (bucket key fake accounts))"
  by (simp add: bucket_def Let_def group_by_period_def group_fold_real)

lemma bucket_fake:
  "series_fake (bucket key fake accounts) =
     map (\<lambda>k. int (length (filter (\<lambda>a. key (starred_at a) = k \<and> username a \<in> fake) accounts)))
       (periods (bucket key fake accounts))"
  by (simp add: bucket_def Let_def group_by_period_def group_fold_fake)

lemma bucket_periods: "periods (bucket key fake accounts) = all_periods (group_by_period key fake accounts)"
  by (simp add: bucket_def Let_def)

lemma count_split:
  "length (filter (\<lambda>a. P a \<and> \<not> Q a) xs) + length (filter (\<lambda>a. P a \<and> Q a) xs)
     = length (filter P xs)"
  by (induction xs) auto

lemma analyze_weekly_series:
  "all_weeks (analyze_weekly_correlation accounts fake) = periods (weekly_series fake accounts)"
  "real_counts (analyze_weekly_correlation accounts fake) = series_real (weekly_series fake accounts)"
  "fake_counts (analyze_weekly_correlation accounts fake) = series_fake (weekly_series fake accounts)"
  by (simp_all add: analyze_weekly_correlation_def weekly_series_def bucket_def Let_def)

text \<open>The bucketing for an arbitrary period key.\<close>

lemma bucket_characterised:
  "sorted_wrt (<) (periods (bucket key fake accounts))
   \<and> set (periods (bucket key fake accounts)) = (\<lambda>a. key (starred_at a)) ` set accounts
   \<and> series_real (bucket key fake accounts) =
       map (\<lambda>k. int (length (filter (\<lambda>a. key (starred_at a) = k \<and> username a \<notin> fake) accounts)))
         (periods (bucket key fake accounts))
   \<and> series_fake (bucket key fake accounts) =
       map (\<lambda>k. int (length (filter (\<lambda>a. key (starred_at a) = k \<and> username a \<in> fake) accounts)))
         (periods (bucket key fake accounts))
   \<and> (\<forall>i < length (periods (bucket key fake accounts)).
        series_real (bucket key fake accounts) ! i + series_fake (bucket key fake accounts) ! i
          = int (length (filter (\<lambda>a. key (starred_at a) = periods (bucket key fake accounts) ! i)
                           accounts))
        \<and> 1 \<le> series_real (bucket key fake accounts) ! i
                + series_fake (bucket key fake accounts) ! i)
   \<and> all_weeks (analyze_weekly_correlation accounts fake) = periods (bucket week_key fake accounts)
   \<and> real_counts (analyze_weekly_correlation accounts fake)
       = series_real (bucket week_key fake accounts)
   \<and> fake_counts (analyze_weekly_correlation accounts fake)
       = series_fake (bucket week_key fake accounts)
   \<and> daily_series fake accounts = bucket to_date fake accounts"
proof -
  let ?b = "bucket key fake accounts"
  have totals: "series_real ?b ! i + series_fake ?b ! i
      = int (length (filter (\<lambda>a. key (starred_at a) = periods ?b ! i) accounts))
    \<and> 1 \<le> series_real ?b ! i + series_fake ?b ! i"
    if i: "i < length (periods ?b)" for i
  proof -
    define k where "k = periods ?b ! i"
    have "k \<in> set (periods ?b)" using i by (simp add: k_def)
    then have "k \<in> (\<lambda>a. key (starred_at a)) ` set accounts"
      by (simp add: bucket_periods all_periods_set del: set_map)
    then have "filter (\<lambda>a. key (starred_at a) = k) accounts \<noteq> []"
      by (auto simp: filter_empty_conv)
    then have pos: "1 \<le> length (filter (\<lambda>a. key (starred_at a) = k) accounts)"
      by (cases "filter (\<lambda>a. key (starred_at a) = k) accounts") simp_all
    have "series_real ?b ! i + series_fake ?b ! i =
        int (length (filter (\<lambda>a. key (starred_at a) = k \<and> username a \<notin> fake) accounts)) +
        int (length (filter (\<lambda>a. key (starred_at a) = k \<and> username a \<in> fake) accounts))"
      using i by (simp add: bucket_real bucket_fake k_def)
    also have "\<dots> = int (length (filter (\<lambda>a. key (starred_at a) = k) accounts))"
      using count_split [of "\<lambda>a. key (starred_at a) = k" "\<lambda>a. username a \<in> fake" accounts]
      by simp
    finally show ?thesis using pos by (simp add: k_def)
  qed
  have "sorted_wrt (<) (periods ?b)"
    by (simp add: bucket_periods all_periods_sorted)
  moreover have "set (periods ?b) = (\<lambda>a. key (starred_at a)) ` set accounts"
    by (simp add: bucket_periods all_periods_set del: set_map)
  moreover note bucket_real [of key fake accounts] bucket_fake [of key fake accounts]
  moreover from totals have "\<forall>i < length (periods ?b).
      series_real ?b ! i + series_fake ?b ! i
        = int (length (filter (\<lambda>a. key (starred_at a) = periods ?b ! i) accounts))
      \<and> 1 \<le> series_real ?b ! i + series_fake ?b ! i"
    by blast
  moreover have "all_weeks (analyze_weekly_correlation accounts fake)
      = periods (bucket week_key fake accounts)"
    "real_counts (analyze_weekly_correlation accounts fake)
      = series_real (bucket week_key fake accounts)"
    "fake_counts (analyze_weekly_correlation accounts fake)
      = series_fake (bucket week_key fake accounts)"
    by (simp_all add: analyze_weekly_series weekly_series_def)
  moreover have "daily_series fake accounts = bucket to_date fake accounts"
    by (simp add: daily_series_def)
  ultimately show ?thesis by blast
qed

lemma week_key_order:
  assumes "1000 \<le> fst (isocalendar (to_date t))" "fst (isocalendar (to_date t)) \<le> 9999"
    "1000 \<le> fst (isocalendar (to_date t'))" "fst (isocalendar (to_date t')) \<le> 9999"
  shows "week_key t < week_key t' \<longleftrightarrow>
           week_before (isocalendar (to_date t)) (isocalendar (to_date t'))"
    and "week_key t = week_key t' \<longleftrightarrow> isocalendar (to_date t) = isocalendar (to_date t')"
proof -
  obtain y w where p: "isocalendar (to_date t) = (y, w)" by (cases "isocalendar (to_date t)")
  obtain y' w' where p': "isocalendar (to_date t') = (y', w')"
    by (cases "isocalendar (to_date t')")
  have w: "1 \<le> w" "w \<le> 54" "1 \<le> w'" "w' \<le> 54"
    using isocalendar_week_range [of "to_date t"] isocalendar_week_range [of "to_date t'"]
    by (simp_all add: p p')
  have y: "1000 \<le> y" "y \<le> 9999" "1000 \<le> y'" "y' \<le> 9999"
    using assms by (simp_all add: p p')
  have k: "week_key t = str_nat (nat y) @ ''-W'' @ str_02d (nat w)"
    "week_key t' = str_nat (nat y') @ ''-W'' @ str_02d (nat w')"
    by (simp_all add: week_key_def p p')
  have lt: "str_nat (nat a) @ ''-W'' @ str_02d (nat b) < str_nat (nat c) @ ''-W'' @ str_02d (nat d)
      \<longleftrightarrow> a < c \<or> (a = c \<and> b < d)"
    if "1000 \<le> a" "a \<le> 9999" "1000 \<le> c" "c \<le> 9999" "1 \<le> b" "b \<le> 54" "1 \<le> d" "d \<le> 54"
    for a b c d :: int
    using that week_label_order [of "nat a" "nat c" "nat b" "nat d"] by auto
  show less: "week_key t < week_key t' \<longleftrightarrow>
           week_before (isocalendar (to_date t)) (isocalendar (to_date t'))"
    using lt [of y y' w w'] y w by (simp add: k p p' week_before_def)
  have "week_key t = week_key t' \<longleftrightarrow> \<not> week_key t < week_key t' \<and> \<not> week_key t' < week_key t"
    by auto
  also have "\<dots> \<longleftrightarrow> \<not> (y < y' \<or> (y = y' \<and> w < w')) \<and> \<not> (y' < y \<or> (y' = y \<and> w' < w))"
    using lt [of y y' w w'] lt [of y' y w' w] y w by (simp add: k)
  also have "\<dots> \<longleftrightarrow> isocalendar (to_date t) = isocalendar (to_date t')"
    by (auto simp: p p')
  finally show "week_key t = week_key t' \<longleftrightarrow> isocalendar (to_date t) = isocalendar (to_date t')" .
qed

lemma to_date_mono: "ts \<le> ts' \<Longrightarrow> to_date ts \<le> to_date ts'"
  by (simp add: to_date_def zdiv_mono1)

text \<open>
  C8 (as amended). For every snapshot, fake-set and period key, the bucketing returns the
  period keys in strictly ascending order of the keys, the periods are exactly those of
  at least one event, and the two counts of a period are the numbers of its events whose
  username is, and is not, in the fake-set, so that every bucket holds at least one event.
  The weekly series of \<open>analyze_weekly_correlation\<close> and the daily series of
  \<open>create_timeline_graph\<close> are this bucketing with the ISO week key and with the date.
  The date key grows with the timestamp. The weekly key is a string: when every star
  falls in an ISO year of four digits (1000 to 9999), two stars have the same key iff
  they have the same ISO year and week, and the stars of an earlier bucket lie in an
  earlier ISO week (earlier year, or same year and earlier week) than those of a later
  bucket.
\<close>

theorem bucket_only_periods_with_events:
  "sorted_wrt (<) (periods (bucket key fake accounts))
   \<and> set (periods (bucket key fake accounts)) = (\<lambda>a. key (starred_at a)) ` set accounts
   \<and> series_real (bucket key fake accounts) =
       map (\<lambda>k. int (length (filter (\<lambda>a. key (starred_at a) = k \<and> username a \<notin> fake) accounts)))
         (periods (bucket key fake accounts))
   \<and> series_fake (bucket key fake accounts) =
       map (\<lambda>k. int (length (filter (\<lambda>a. key (starred_at a) = k \<and> username a \<in> fake) accounts)))
         (periods (bucket key fake accounts))
   \<and> (\<forall>i < length (periods (bucket key fake accounts)).
        series_real (bucket key fake accounts) ! i + series_fake (bucket key fake accounts) ! i
          = int (length (filter (\<lambda>a. key (starred_at a) = periods (bucket key fake accounts) ! i)
                           accounts))
        \<and> 1 \<le> series_real (bucket key fake accounts) ! i
                + series_fake (bucket key fake accounts) ! i)
   \<and> all_weeks (analyze_weekly_correlation accounts fake) = periods (bucket week_key fake accounts)
   \<and> real_counts (analyze_weekly_correlation accounts fake)
       = series_real (bucket week_key fake accounts)
   \<and> fake_counts (analyze_weekly_correlation accounts fake)
       = series_fake (bucket week_key fake accounts)
   \<and> daily_series fake accounts = bucket to_date fake accounts
   \<and> (\<forall>ts ts'. ts \<le> ts' \<longrightarrow> to_date ts \<le> to_date ts')
   \<and> ((\<forall>a\<in>set accounts. 1000 \<le> fst (iso_week a) \<and> fst (iso_week a) \<le> 9999) \<longrightarrow>
        (\<forall>a\<in>set accounts. \<forall>b\<in>set accounts.
           (week_key (starred_at a) = week_key (starred_at b) \<longleftrightarrow> iso_week a = iso_week b)) \<and>
        (\<forall>i j. i < j \<and> j < length (periods (bucket week_key fake accounts)) \<longrightarrow>
           (\<forall>a\<in>set accounts. \<forall>b\<in>set accounts.
              week_key (starred_at a) = periods (bucket week_key fake accounts) ! i \<and>
              week_key (starred_at b) = periods (bucket week_key fake accounts) ! j \<longrightarrow>
              week_before (iso_week a) (iso_week b))))"
proof -
  have order: "(\<forall>a\<in>set accounts. \<forall>b\<in>set accounts.
           (week_key (starred_at a) = week_key (starred_at b) \<longleftrightarrow> iso_week a = iso_week b)) \<and>
        (\<forall>i j. i < j \<and> j < length (periods (bucket week_key fake accounts)) \<longrightarrow>
           (\<forall>a\<in>set accounts. \<forall>b\<in>set accounts.
              week_key (starred_at a) = periods (bucket week_key fake accounts) ! i \<and>
              week_key (starred_at b) = periods (bucket week_key fake accounts) ! j \<longrightarrow>
              week_before (iso_week a) (iso_week b)))"
    if years: "\<forall>a\<in>set accounts. 1000 \<le> fst (iso_week a) \<and> fst (iso_week a) \<le> 9999"
  proof (intro conjI ballI allI impI)
    fix a b assume "a \<in> set accounts" "b \<in> set accounts"
    with years show "week_key (starred_at a) = week_key (starred_at b) \<longleftrightarrow> iso_week a = iso_week b"
      using week_key_order(2) [of "starred_at a" "starred_at b"] by (simp add: iso_week_def)
  next
    fix i j a b
    assume ij: "i < j \<and> j < length (periods (bucket week_key fake accounts))"
      and ab: "a \<in> set accounts" "b \<in> set accounts"
      and k: "week_key (starred_at a) = periods (bucket week_key fake accounts) ! i \<and>
              week_key (starred_at b) = periods (bucket week_key fake accounts) ! j"
    have "sorted_wrt (<) (periods (bucket week_key fake accounts))"
      by (simp add: bucket_periods all_periods_sorted)
    with ij have "periods (bucket week_key fake accounts) ! i
        < periods (bucket week_key fake accounts) ! j"
      by (simp add: sorted_wrt_nth_less)
    with k have "week_key (starred_at a) < week_key (starred_at b)" by simp
    with years ab show "week_before (iso_week a) (iso_week b)"
      using week_key_order(1) [of "starred_at a" "starred_at b"] by (simp add: iso_week_def)
  qed
  have mono: "\<forall>ts ts'. ts \<le> ts' \<longrightarrow> to_date ts \<le> to_date ts'"
    by (simp add: to_date_mono)
  from bucket_characterised [of key fake accounts] mono order show ?thesis
    by blast
qed

lemmas calendar_defs = week_key_def str_02d_def isocalendar_def to_date_def ord2year_def
  isoweek1monday_def days_before_year_def digit_char_def

theorem bucket_only_periods_with_events_witness:
  "daily_series {''bob''} bucket_snapshot =
     \<lparr>periods = [739052, 739061], series_real = [1, 1], series_fake = [1, 0]\<rparr>
   \<and> weekly_series {''bob''} bucket_snapshot =
     \<lparr>periods = [''2024-W24'', ''2024-W26''], series_real = [1, 1], series_fake = [1, 0]\<rparr>
   \<and> all_weeks (analyze_weekly_correlation bucket_snapshot {''bob''}) = [''2024-W24'', ''2024-W26'']
   \<and> to_date t0 = to_date (t0 + 180 * minute_us)
   \<and> iso_week (mk_account ''alice'' t0) = (2024, 24)
   \<and> iso_week (mk_account ''carol'' (t0 + 9 * day_us)) = (2024, 26)
   \<and> week_before (iso_week (mk_account ''alice'' t0))
        (iso_week (mk_account ''carol'' (t0 + 9 * day_us)))"
proof -
  have d: "bucket to_date {''bob''} bucket_snapshot =
     \<lparr>periods = [739052, 739061], series_real = [1, 1], series_fake = [1, 0]\<rparr>"
    by (simp add: bucket_def group_by_period_def all_periods_def Let_def
          bucket_snapshot_def mk_account_def to_date_def t0_def day_us_def minute_us_def)
  have keys: "week_key 1718452800000000 = ''2024-W24''"
    "week_key 1718463600000000 = ''2024-W24''"
    "week_key 1719230400000000 = ''2024-W26''"
    by (simp_all add: calendar_defs)
  have iso: "isocalendar (to_date 1718452800000000) = (2024, 24)"
    "isocalendar (to_date 1718463600000000) = (2024, 24)"
    "isocalendar (to_date 1719230400000000) = (2024, 26)"
    by (simp_all add: calendar_defs)
  have w: "bucket week_key {''bob''} bucket_snapshot =
     \<lparr>periods = [''2024-W24'', ''2024-W26''], series_real = [1, 1], series_fake = [1, 0]\<rparr>"
    by (simp add: bucket_def group_by_period_def all_periods_def Let_def
          bucket_snapshot_def mk_account_def keys t0_def day_us_def minute_us_def)
  have same: "to_date t0 = to_date (t0 + 180 * minute_us)"
    by (simp add: to_date_def t0_def minute_us_def)
  have years: "\<forall>a\<in>set bucket_snapshot. 1000 \<le> fst (iso_week a) \<and> fst (iso_week a) \<le> 9999"
    by (simp add: bucket_snapshot_def iso_week_def mk_account_def t0_def day_us_def
          minute_us_def iso)
  have ia: "iso_week (mk_account ''alice'' t0) = (2024, 24)"
    and ic: "iso_week (mk_account ''carol'' (t0 + 9 * day_us)) = (2024, 26)"
    by (simp_all add: iso_week_def mk_account_def t0_def day_us_def iso)
  have ka: "week_key (starred_at (mk_account ''alice'' t0)) = ''2024-W24''"
    and kc: "week_key (starred_at (mk_account ''carol'' (t0 + 9 * day_us))) = ''2024-W26''"
    by (simp_all add: mk_account_def t0_def day_us_def keys)
  have mem: "mk_account ''alice'' t0 \<in> set bucket_snapshot"
    "mk_account ''carol'' (t0 + 9 * day_us) \<in> set bucket_snapshot"
    by (simp_all add: bucket_snapshot_def)
  from bucket_only_periods_with_events [of week_key "{''bob''}" bucket_snapshot] years
  have "\<forall>i j. i < j \<and> j < length (periods (bucket week_key {''bob''} bucket_snapshot)) \<longrightarrow>
      (\<forall>a\<in>set bucket_snapshot. \<forall>b\<in>set bucket_snapshot.
         week_key (starred_at a) = periods (bucket week_key {''bob''} bucket_snapshot) ! i \<and>
         week_key (starred_at b) = periods (bucket week_key {''bob''} bucket_snapshot) ! j \<longrightarrow>
         week_before (iso_week a) (iso_week b))"
    by blast
  then have "0 < (1::nat) \<and> 1 < length (periods (bucket week_key {''bob''} bucket_snapshot)) \<longrightarrow>
      (\<forall>a\<in>set bucket_snapshot. \<forall>b\<in>set bucket_snapshot.
         week_key (starred_at a) = periods (bucket week_key {''bob''} bucket_snapshot) ! 0 \<and>
         week_key (starred_at b) = periods (bucket week_key {''bob''} bucket_snapshot) ! 1 \<longrightarrow>
         week_before (iso_week a) (iso_week b))"
    by blast
  with mem ka kc have "week_before (iso_week (mk_account ''alice'' t0))
      (iso_week (mk_account ''carol'' (t0 + 9 * day_us)))"
    by (simp add: w)
  with d w same ia ic show ?thesis
    by (simp add: weekly_series_def daily_series_def analyze_weekly_series)
qed

theorem weekly_bucket_order_counterexample:
  "all_weeks (analyze_weekly_correlation ancient_snapshot {}) = [''1000-W02'', ''999-W02'']
   \<and> real_counts (analyze_weekly_correlation ancient_snapshot {}) = [1, 1]
   \<and> iso_week (mk_account ''late'' (- 30609576000000000)) = (1000, 2)
   \<and> iso_week (mk_account ''early'' (- 30640939200000000)) = (999, 2)
   \<and> week_key (- 30609576000000000) = ''1000-W02''
   \<and> week_key (- 30640939200000000) = ''999-W02''"
proof -
  have iso: "isocalendar (to_date (- 30609576000000000)) = (1000, 2)"
    "isocalendar (to_date (- 30640939200000000)) = (999, 2)"
    by (simp_all add: calendar_defs)
  have keys: "week_key (- 30609576000000000) = ''1000-W02''"
    "week_key (- 30640939200000000) = ''999-W02''"
    by (simp_all add: week_key_def iso) (simp_all add: str_02d_def digit_char_def)
  have "bucket week_key {} ancient_snapshot =
     \<lparr>periods = [''1000-W02'', ''999-W02''], series_real = [1, 1], series_fake = [0, 0]\<rparr>"
    by (simp add: bucket_def group_by_period_def all_periods_def Let_def
          ancient_snapshot_def mk_account_def keys)
  then show ?thesis
    using iso keys
    by (simp add: analyze_weekly_series weekly_series_def iso_week_def mk_account_def)
qed

section \<open>The weekly analysis\<close>

subsection \<open>The fields of the result\<close>

lemma analyze_correlation:
  "correlation (analyze_weekly_correlation accounts fake) =
     (if 2 < length (real_counts (analyze_weekly_correlation accounts fake))
      then Some (Pearsonr (real_counts (analyze_weekly_correlation accounts fake))
                  (fake_counts (analyze_weekly_correlation accounts fake)))
      else None)"
  by (simp add: analyze_weekly_correlation_def Let_def)

lemma analyze_correlation_2024:
  "correlation_2024 (analyze_weekly_correlation accounts fake) =
     (if 4 < length (weeks_2024 accounts fake)
      then Some (Pearsonr (real_2024 accounts fake) (fake_2024 accounts fake))
      else None)"
  by (simp add: analyze_weekly_correlation_def Let_def weeks_2024_def real_2024_def
        fake_2024_def)

lemma analyze_inverse:
  "inverse_weeks_2024 (analyze_weekly_correlation accounts fake) =
     (if 4 < length (weeks_2024 accounts fake)
      then fst (week_over_week (real_2024 accounts fake) (fake_2024 accounts fake)) else 0)"
  "inverse_pct_2024 (analyze_weekly_correlation accounts fake) =
     (if 4 < length (weeks_2024 accounts fake)
      then inverse_pct_of (fst (week_over_week (real_2024 accounts fake) (fake_2024 accounts fake)))
             (int (length (weeks_2024 accounts fake)) - 1)
      else 0)"
  by (simp_all add: analyze_weekly_correlation_def Let_def weeks_2024_def real_2024_def
        fake_2024_def)

lemma analyze_compensatory:
  "compensatory (analyze_weekly_correlation accounts fake) =
     moving_average (weeks_2024 accounts fake) (real_2024 accounts fake) (fake_2024 accounts fake)"
  by (simp add: analyze_weekly_correlation_def Let_def weeks_2024_def real_2024_def
        fake_2024_def)

lemma startswith_2024: "startswith w ''2024'' = (take 4 w = ''2024'')"
  by (simp add: startswith_def eval_nat_numeral)

lemma weeks_2024_all_weeks:
  "weeks_2024 accounts fake =
     filter (\<lambda>w. take 4 w = ''2024'') (all_weeks (analyze_weekly_correlation accounts fake))"
  by (simp add: analyze_weekly_correlation_def Let_def weeks_2024_def weeks_2024_of_def
        startswith_2024)

lemma length_2024 [simp]:
  "length (real_2024 accounts fake) = length (weeks_2024 accounts fake)"
  "length (fake_2024 accounts fake) = length (weeks_2024 accounts fake)"
  by (simp_all add: real_2024_def fake_2024_def)

lemma map_filter_zip:
  "map f (filter P xs) = map snd (filter (\<lambda>p. P (fst p)) (zip xs (map f xs)))"
  by (induction xs) auto

lemma series_2024:
  "real_2024 accounts fake =
     map snd (filter (\<lambda>p. take 4 (fst p) = ''2024'')
                (zip (periods (weekly_series fake accounts))
                     (series_real (weekly_series fake accounts))))"
  "fake_2024 accounts fake =
     map snd (filter (\<lambda>p. take 4 (fst p) = ''2024'')
                (zip (periods (weekly_series fake accounts))
                     (series_fake (weekly_series fake accounts))))"
  "weeks_2024 accounts fake =
     filter (\<lambda>w. take 4 w = ''2024'') (periods (weekly_series fake accounts))"
  using map_filter_zip [of "lookup (fst (group_by_period week_key fake accounts))"
      "\<lambda>w. take 4 w = ''2024''" "all_periods (group_by_period week_key fake accounts)"]
    map_filter_zip [of "lookup (snd (group_by_period week_key fake accounts))"
      "\<lambda>w. take 4 w = ''2024''" "all_periods (group_by_period week_key fake accounts)"]
  by (simp_all add: real_2024_def fake_2024_def weeks_2024_def weeks_2024_of_def
        startswith_2024 weekly_series_def bucket_def Let_def)

lemma counts_2024:
  "real_2024 accounts fake =
     map (\<lambda>k. int (length (filter (\<lambda>a. week_key (starred_at a) = k \<and> username a \<notin> fake) accounts)))
       (weeks_2024 accounts fake)"
  "fake_2024 accounts fake =
     map (\<lambda>k. int (length (filter (\<lambda>a. week_key (starred_at a) = k \<and> username a \<in> fake) accounts)))
       (weeks_2024 accounts fake)"
  by (simp_all add: real_2024_def fake_2024_def group_by_period_def group_fold_real
        group_fold_fake)


subsection \<open>The week-over-week loop counts the strictly opposite pairs\<close>

lemma strictly_opposite_iff:
  "strictly_opposite a b \<longleftrightarrow> (a < 0 \<and> b > 0) \<or> (a > 0 \<and> b < 0)"
  by (auto simp: strictly_opposite_def sgn_if split: if_splits)

lemma strictly_opposite_zero: "\<not> strictly_opposite 0 b" "\<not> strictly_opposite a 0"
  by (simp_all add: strictly_opposite_def)

lemma fold_change_step:
  "fst (fold (change_step real_s fake_s) xs (a, b)) =
     a + int (length (filter (spec_inverse_pair real_s fake_s) xs))"
  by (induction xs arbitrary: a b)
     (auto simp: Let_def spec_inverse_pair_def strictly_opposite_iff)

lemma week_over_week_count:
  "fst (week_over_week real_s fake_s) = spec_inverse_count real_s fake_s"
  by (simp add: week_over_week_def spec_inverse_count_def fold_change_step)

subsection \<open>The moving-average loop flags the spikes of the specification\<close>

lemma sum_list_take_drop:
  "m + n \<le> length xs \<Longrightarrow> sum_list (take n (drop m xs)) = (\<Sum>j = m..<m + n. xs ! j)"
proof (induction n)
  case 0
  show ?case by simp
next
  case (Suc n)
  then have "n < length (drop m xs)" by simp
  then have "take (Suc n) (drop m xs) = take n (drop m xs) @ [xs ! (m + n)]"
    using Suc.prems by (simp add: take_Suc_conv_app_nth)
  with Suc show ?case by simp
qed

lemma np_mean_window:
  assumes "4 \<le> i" "i \<le> length xs"
  shows "np_mean (slice xs (i - 4) i) = spec_moving_avg 4 xs i"
proof -
  have "slice xs (i - 4) i = take 4 (drop (i - 4) xs)"
    using assms by (simp add: slice_def)
  moreover have "sum_list (take 4 (drop (i - 4) xs)) = (\<Sum>j = i - 4..<i. xs ! j)"
    using sum_list_take_drop [of "i - 4" 4 xs] assms by simp
  moreover have "length (take 4 (drop (i - 4) xs)) = 4"
    using assms by simp
  ultimately show ?thesis
    by (simp add: np_mean_def spec_moving_avg_def)
qed

lemma ma_step_spec:
  assumes "4 \<le> i" "i < length real_s" "i < length fake_s"
  shows "ma_step 4 weeks real_s fake_s i printed =
     (if spec_spike 4 real_s fake_s i then printed @ [spike_at 4 weeks real_s fake_s i]
      else printed)"
  using assms
  by (simp add: ma_step_def Let_def np_mean_window spec_spike_def spec_deviation_def
        spike_at_def)

lemma fold_ma_step:
  assumes "\<forall>i\<in>set xs. 4 \<le> i \<and> i < length real_s \<and> i < length fake_s"
  shows "fold (ma_step 4 weeks real_s fake_s) xs printed =
     printed @ map (spike_at 4 weeks real_s fake_s) (filter (spec_spike 4 real_s fake_s) xs)"
  using assms by (induction xs arbitrary: printed) (simp_all add: ma_step_spec)

lemma moving_average_spec:
  assumes "length real_s = length weeks" "length fake_s = length weeks"
  shows "moving_average weeks real_s fake_s =
     (if 8 \<le> length weeks
      then map (spike_at 4 weeks real_s fake_s)
             (filter (spec_spike 4 real_s fake_s) [4..<length weeks])
      else [])"
  using assms fold_ma_step [of "[4..<length weeks]" real_s fake_s weeks "[]"]
  by (simp add: moving_average_def)


subsection \<open>The example snapshots, evaluated\<close>

lemma stars_0 [simp]: "stars p 0 ts = []"
  by (simp add: stars_def)

lemma stars_Suc: "stars p (Suc n) ts = stars p n ts @ [mk_account (p @ str_nat n) ts]"
  by (simp add: stars_def)

lemma stars_numeral [simp]:
  "stars p (numeral k) ts =
     stars p (pred_numeral k) ts @ [mk_account (p @ str_nat (pred_numeral k)) ts]"
  by (simp add: numeral_eq_Suc stars_Suc)

lemma stars_1 [simp]: "stars p (Suc 0) ts = [mk_account (p @ ''0'') ts]"
  by (simp add: stars_Suc)

lemma week_keys:
  "week_key 1704283200000000 = ''2024-W01''"
  "week_key 1704888000000000 = ''2024-W02''"
  "week_key 1705492800000000 = ''2024-W03''"
  "week_key 1706097600000000 = ''2024-W04''"
  "week_key 1706702400000000 = ''2024-W05''"
  "week_key 1707307200000000 = ''2024-W06''"
  "week_key 1707912000000000 = ''2024-W07''"
  "week_key 1708516800000000 = ''2024-W08''"
  by (simp_all add: calendar_defs)

lemmas weekly_eval = weekly_series_def bucket_def group_by_period_def all_periods_def Let_def
  weekly_snapshot_def weekly_fakes_def week_ts_def day_us_def mk_account_def digit_char_def
  week_keys

lemma inverse_example_series:
  "weekly_series (weekly_fakes inverse_example) (weekly_snapshot inverse_example) =
     \<lparr>periods = [''2024-W01'', ''2024-W02'', ''2024-W03''],
      series_real = [10, 7, 9], series_fake = [2, 6, 3]\<rparr>"
  by (simp add: weekly_eval inverse_example_def)

lemma inverse_example_5_series:
  "weekly_series (weekly_fakes inverse_example_5) (weekly_snapshot inverse_example_5) =
     \<lparr>periods = [''2024-W01'', ''2024-W02'', ''2024-W03'', ''2024-W04'', ''2024-W05''],
      series_real = [10, 7, 9, 6, 8], series_fake = [2, 6, 3, 7, 4]\<rparr>"
  by (simp add: weekly_eval inverse_example_5_def)

lemma spike_example_series:
  "weekly_series (weekly_fakes spike_example) (weekly_snapshot spike_example) =
     \<lparr>periods = [''2024-W01'', ''2024-W02'', ''2024-W03'', ''2024-W04'', ''2024-W05''],
      series_real = [10, 10, 10, 10, 3], series_fake = [2, 2, 2, 2, 15]\<rparr>"
  by (simp add: weekly_eval spike_example_def)

lemma spike_example_8_series:
  "weekly_series (weekly_fakes spike_example_8) (weekly_snapshot spike_example_8) =
     \<lparr>periods = [''2024-W01'', ''2024-W02'', ''2024-W03'', ''2024-W04'', ''2024-W05'',
                 ''2024-W06'', ''2024-W07'', ''2024-W08''],
      series_real = [10, 10, 10, 10, 10, 10, 10, 3],
      series_fake = [2, 2, 2, 2, 2, 2, 2, 15]\<rparr>"
  by (simp add: weekly_eval spike_example_8_def)

section \<open>The weekly analysis: correlation, inverse weeks and spikes\<close>

lemma inverse_example_2024:
  "weeks_2024 (weekly_snapshot inverse_example) (weekly_fakes inverse_example)
     = [''2024-W01'', ''2024-W02'', ''2024-W03'']"
  "real_2024 (weekly_snapshot inverse_example) (weekly_fakes inverse_example) = [10, 7, 9]"
  "fake_2024 (weekly_snapshot inverse_example) (weekly_fakes inverse_example) = [2, 6, 3]"
  by (simp_all add: series_2024 inverse_example_series)

lemma inverse_example_5_2024:
  "weeks_2024 (weekly_snapshot inverse_example_5) (weekly_fakes inverse_example_5)
     = [''2024-W01'', ''2024-W02'', ''2024-W03'', ''2024-W04'', ''2024-W05'']"
  "real_2024 (weekly_snapshot inverse_example_5) (weekly_fakes inverse_example_5)
     = [10, 7, 9, 6, 8]"
  "fake_2024 (weekly_snapshot inverse_example_5) (weekly_fakes inverse_example_5)
     = [2, 6, 3, 7, 4]"
  by (simp_all add: series_2024 inverse_example_5_series)

lemma spike_example_2024:
  "weeks_2024 (weekly_snapshot spike_example) (weekly_fakes spike_example)
     = [''2024-W01'', ''2024-W02'', ''2024-W03'', ''2024-W04'', ''2024-W05'']"
  "real_2024 (weekly_snapshot spike_example) (weekly_fakes spike_example)
     = [10, 10, 10, 10, 3]"
  "fake_2024 (weekly_snapshot spike_example) (weekly_fakes spike_example)
     = [2, 2, 2, 2, 15]"
  by (simp_all add: series_2024 spike_example_series)

lemma spike_example_8_2024:
  "weeks_2024 (weekly_snapshot spike_example_8) (weekly_fakes spike_example_8)
     = [''2024-W01'', ''2024-W02'', ''2024-W03'', ''2024-W04'', ''2024-W05'',
        ''2024-W06'', ''2024-W07'', ''2024-W08'']"
  "real_2024 (weekly_snapshot spike_example_8) (weekly_fakes spike_example_8)
     = [10, 10, 10, 10, 10, 10, 10, 3]"
  "fake_2024 (weekly_snapshot spike_example_8) (weekly_fakes spike_example_8)
     = [2, 2, 2, 2, 2, 2, 2, 15]"
  by (simp_all add: series_2024 spike_example_8_series)

lemma example_counts:
  "real_counts (analyze_weekly_correlation (weekly_snapshot inverse_example)
      (weekly_fakes inverse_example)) = [10, 7, 9]"
  "fake_counts (analyze_weekly_correlation (weekly_snapshot inverse_example)
      (weekly_fakes inverse_example)) = [2, 6, 3]"
  "real_counts (analyze_weekly_correlation (weekly_snapshot inverse_example_5)
      (weekly_fakes inverse_example_5)) = [10, 7, 9, 6, 8]"
  "fake_counts (analyze_weekly_correlation (weekly_snapshot inverse_example_5)
      (weekly_fakes inverse_example_5)) = [2, 6, 3, 7, 4]"
  by (simp_all add: analyze_weekly_series inverse_example_series inverse_example_5_series)

text \<open>
  C2 (as amended). The overall Pearson result is present iff the bucketed series has more
  than 2 periods, and is the explicit undefined value otherwise. The 2024 sub-range (the
  weeks whose key starts with 2024, with their counts) follows a different rule: its
  Pearson result is present iff the slice has more than 4 weeks, and is the explicit
  undefined value otherwise. Neither path raises.
\<close>

theorem pearson_minimum_lengths:
  "correlation (analyze_weekly_correlation accounts fake) =
     (if 2 < length (real_counts (analyze_weekly_correlation accounts fake))
      then Some (Pearsonr (real_counts (analyze_weekly_correlation accounts fake))
                  (fake_counts (analyze_weekly_correlation accounts fake)))
      else None)
   \<and> correlation_2024 (analyze_weekly_correlation accounts fake) =
     (if 4 < length (weeks_2024 accounts fake)
      then Some (Pearsonr (real_2024 accounts fake) (fake_2024 accounts fake))
      else None)
   \<and> weeks_2024 accounts fake =
       filter (\<lambda>w. take 4 w = ''2024'') (all_weeks (analyze_weekly_correlation accounts fake))
   \<and> real_2024 accounts fake =
       map (\<lambda>k. int (length (filter (\<lambda>a. week_key (starred_at a) = k \<and> username a \<notin> fake)
                                accounts)))
         (weeks_2024 accounts fake)
   \<and> fake_2024 accounts fake =
       map (\<lambda>k. int (length (filter (\<lambda>a. week_key (starred_at a) = k \<and> username a \<in> fake)
                                accounts)))
         (weeks_2024 accounts fake)
   \<and> length (real_counts (analyze_weekly_correlation accounts fake))
       = length (all_weeks (analyze_weekly_correlation accounts fake))
   \<and> length (fake_counts (analyze_weekly_correlation accounts fake))
       = length (all_weeks (analyze_weekly_correlation accounts fake))"
proof -
  have "length (real_counts (analyze_weekly_correlation accounts fake))
       = length (all_weeks (analyze_weekly_correlation accounts fake))"
    "length (fake_counts (analyze_weekly_correlation accounts fake))
       = length (all_weeks (analyze_weekly_correlation accounts fake))"
    by (simp_all add: analyze_weekly_correlation_def Let_def)
  with analyze_correlation [of accounts fake] analyze_correlation_2024 [of accounts fake]
    weeks_2024_all_weeks [of accounts fake] counts_2024 [of accounts fake]
  show ?thesis by blast
qed

theorem pearson_minimum_lengths_witness:
  "correlation_2024 (analyze_weekly_correlation (weekly_snapshot inverse_example_5)
      (weekly_fakes inverse_example_5)) = Some (Pearsonr [10, 7, 9, 6, 8] [2, 6, 3, 7, 4])
   \<and> correlation (analyze_weekly_correlation (weekly_snapshot inverse_example_5)
      (weekly_fakes inverse_example_5)) = Some (Pearsonr [10, 7, 9, 6, 8] [2, 6, 3, 7, 4])
   \<and> correlation (analyze_weekly_correlation (weekly_snapshot inverse_example)
      (weekly_fakes inverse_example)) = Some (Pearsonr [10, 7, 9] [2, 6, 3])"
  using pearson_minimum_lengths [of "weekly_snapshot inverse_example_5"
      "weekly_fakes inverse_example_5"]
    pearson_minimum_lengths [of "weekly_snapshot inverse_example" "weekly_fakes inverse_example"]
  by (simp add: inverse_example_5_2024 inverse_example_2024 example_counts)

theorem pearson_sub_range_counterexample:
  "length (weeks_2024 (weekly_snapshot inverse_example) (weekly_fakes inverse_example)) = 3
   \<and> real_2024 (weekly_snapshot inverse_example) (weekly_fakes inverse_example) = [10, 7, 9]
   \<and> fake_2024 (weekly_snapshot inverse_example) (weekly_fakes inverse_example) = [2, 6, 3]
   \<and> correlation_2024 (analyze_weekly_correlation (weekly_snapshot inverse_example)
        (weekly_fakes inverse_example)) = None"
  by (simp add: analyze_correlation_2024 inverse_example_2024)


text \<open>
  C6 (as amended). A pair of consecutive weeks counts as inverse iff its two deltas have
  strictly opposite signs, so a zero delta on either side is never inverse. When the
  2024 sub-range has more than 4 weeks, the reported inverse count is the number of such
  pairs and the reported percentage is that count divided by the sub-range length minus
  1, times 100; when it has 4 weeks or fewer, no pair is examined and the reported count
  and percentage are both 0.
\<close>

theorem inverse_weeks_guarded:
  "inverse_weeks_2024 (analyze_weekly_correlation accounts fake) =
     (if 4 < length (weeks_2024 accounts fake)
      then spec_inverse_count (real_2024 accounts fake) (fake_2024 accounts fake) else 0)
   \<and> inverse_pct_2024 (analyze_weekly_correlation accounts fake) =
     (if 4 < length (weeks_2024 accounts fake)
      then of_int (spec_inverse_count (real_2024 accounts fake) (fake_2024 accounts fake))
             / of_int (int (length (weeks_2024 accounts fake)) - 1) * 100
      else 0)
   \<and> length (real_2024 accounts fake) = length (weeks_2024 accounts fake)
   \<and> length (fake_2024 accounts fake) = length (weeks_2024 accounts fake)
   \<and> (strictly_opposite delta_real delta_fake \<longleftrightarrow>
        (delta_real < 0 \<and> 0 < delta_fake) \<or> (0 < delta_real \<and> delta_fake < 0))
   \<and> \<not> strictly_opposite 0 delta_fake \<and> \<not> strictly_opposite delta_real 0"
proof -
  have "inverse_pct_2024 (analyze_weekly_correlation accounts fake) =
     (if 4 < length (weeks_2024 accounts fake)
      then of_int (spec_inverse_count (real_2024 accounts fake) (fake_2024 accounts fake))
             / of_int (int (length (weeks_2024 accounts fake)) - 1) * 100
      else 0)"
    by (simp add: analyze_inverse(2) week_over_week_count inverse_pct_of_def)
  moreover have "inverse_weeks_2024 (analyze_weekly_correlation accounts fake) =
     (if 4 < length (weeks_2024 accounts fake)
      then spec_inverse_count (real_2024 accounts fake) (fake_2024 accounts fake) else 0)"
    by (simp add: analyze_inverse(1) week_over_week_count)
  moreover have "strictly_opposite delta_real delta_fake \<longleftrightarrow>
        (delta_real < 0 \<and> 0 < delta_fake) \<or> (0 < delta_real \<and> delta_fake < 0)"
    by (rule strictly_opposite_iff)
  ultimately show ?thesis
    using strictly_opposite_zero by simp
qed

lemma inverse_counts_examples:
  "spec_inverse_count [10, 7, 9] [2, 6, 3] = 2"
  "spec_inverse_count [10, 7, 9, 6, 8] [2, 6, 3, 7, 4] = 4"
  by (simp_all add: spec_inverse_count_def spec_inverse_pair_def strictly_opposite_iff
        upt_rec [of "Suc 0"] upt_rec [of 2] upt_rec [of 3] upt_rec [of 4] upt_rec [of 5])

theorem inverse_weeks_guarded_witness:
  "inverse_weeks_2024 (analyze_weekly_correlation (weekly_snapshot inverse_example_5)
      (weekly_fakes inverse_example_5)) = 4
   \<and> inverse_pct_2024 (analyze_weekly_correlation (weekly_snapshot inverse_example_5)
      (weekly_fakes inverse_example_5)) = 100
   \<and> real_2024 (weekly_snapshot inverse_example_5) (weekly_fakes inverse_example_5)
        = [10, 7, 9, 6, 8]
   \<and> fake_2024 (weekly_snapshot inverse_example_5) (weekly_fakes inverse_example_5)
        = [2, 6, 3, 7, 4]"
  using inverse_weeks_guarded [of "weekly_snapshot inverse_example_5"
      "weekly_fakes inverse_example_5" 0 0]
  by (simp add: inverse_example_5_2024 inverse_counts_examples)

theorem inverse_pct_short_range_counterexample:
  "real_2024 (weekly_snapshot inverse_example) (weekly_fakes inverse_example) = [10, 7, 9]
   \<and> fake_2024 (weekly_snapshot inverse_example) (weekly_fakes inverse_example) = [2, 6, 3]
   \<and> spec_inverse_count [10, 7, 9] [2, 6, 3] = 2
   \<and> inverse_weeks_2024 (analyze_weekly_correlation (weekly_snapshot inverse_example)
        (weekly_fakes inverse_example)) = 0
   \<and> inverse_pct_2024 (analyze_weekly_correlation (weekly_snapshot inverse_example)
        (weekly_fakes inverse_example)) = 0"
  by (simp add: analyze_inverse inverse_example_2024 inverse_counts_examples)

text \<open>
  C3 (as amended). When the 2024 sub-range has at least 8 weeks, the moving-average
  section reports, in order, exactly the weeks of index \<open>i \<ge> 4\<close> whose real deviation is
  below -5 and whose fake deviation is above 10, where the moving average is the mean of
  the previous 4 values and the deviation is the current value minus that mean, together
  with the raw values, averages and deviations. When the sub-range has fewer than 8
  weeks, nothing is reported.
\<close>

theorem compensatory_spikes_guarded:
  "compensatory (analyze_weekly_correlation accounts fake) =
     (if 8 \<le> length (weeks_2024 accounts fake)
      then map (spike_at 4 (weeks_2024 accounts fake) (real_2024 accounts fake)
                  (fake_2024 accounts fake))
             (filter (spec_spike 4 (real_2024 accounts fake) (fake_2024 accounts fake))
                [4..<length (weeks_2024 accounts fake)])
      else [])
   \<and> spec_moving_avg 4 series_values i = of_int (\<Sum>j = i - 4..<i. series_values ! j) / 4
   \<and> spec_deviation 4 series_values i
       = of_int (series_values ! i) - spec_moving_avg 4 series_values i
   \<and> (spec_spike 4 real_series fake_series i \<longleftrightarrow>
        spec_deviation 4 real_series i < - 5 \<and> 10 < spec_deviation 4 fake_series i)"
  using moving_average_spec [of "real_2024 accounts fake" "weeks_2024 accounts fake"
      "fake_2024 accounts fake"]
  by (simp add: analyze_compensatory spec_moving_avg_def spec_deviation_def spec_spike_def)

lemma spike_values:
  "spec_moving_avg 4 [10, 10, 10, 10, 10, 10, 10, 3] 4 = 10"
  "spec_moving_avg 4 [10, 10, 10, 10, 10, 10, 10, 3] 5 = 10"
  "spec_moving_avg 4 [10, 10, 10, 10, 10, 10, 10, 3] 6 = 10"
  "spec_moving_avg 4 [10, 10, 10, 10, 10, 10, 10, 3] 7 = 10"
  "spec_moving_avg 4 [2, 2, 2, 2, 2, 2, 2, 15] 4 = 2"
  "spec_moving_avg 4 [2, 2, 2, 2, 2, 2, 2, 15] 5 = 2"
  "spec_moving_avg 4 [2, 2, 2, 2, 2, 2, 2, 15] 6 = 2"
  "spec_moving_avg 4 [2, 2, 2, 2, 2, 2, 2, 15] 7 = 2"
  "spec_moving_avg 4 [10, 10, 10, 10, 3] 4 = 10"
  "spec_moving_avg 4 [2, 2, 2, 2, 15] 4 = 2"
  by (simp_all add: spec_moving_avg_def eval_nat_numeral)

theorem compensatory_spikes_guarded_witness:
  "compensatory (analyze_weekly_correlation (weekly_snapshot spike_example_8)
      (weekly_fakes spike_example_8)) =
     [\<lparr>spike_week = ''2024-W08'', spike_real = 3, spike_real_ma = 10, spike_real_dev = - 7,
       spike_fake = 15, spike_fake_ma = 2, spike_fake_dev = 13\<rparr>]
   \<and> \<not> spec_spike 4 [10, 10, 10, 10, 10, 10, 10, 3] [2, 2, 2, 2, 2, 2, 2, 15] 4
   \<and> real_2024 (weekly_snapshot spike_example_8) (weekly_fakes spike_example_8)
        = [10, 10, 10, 10, 10, 10, 10, 3]
   \<and> fake_2024 (weekly_snapshot spike_example_8) (weekly_fakes spike_example_8)
        = [2, 2, 2, 2, 2, 2, 2, 15]"
proof -
  have sp: "filter (spec_spike 4 [10, 10, 10, 10, 10, 10, 10, 3] [2, 2, 2, 2, 2, 2, 2, 15])
      [4..<8] = [7]"
    by (simp add: spec_spike_def spec_deviation_def spike_values upt_rec [of 4]
          upt_rec [of 5] upt_rec [of 6] upt_rec [of 7] upt_rec [of 8])
  have no: "\<not> spec_spike 4 [10, 10, 10, 10, 10, 10, 10, 3] [2, 2, 2, 2, 2, 2, 2, 15] 4"
    by (simp add: spec_spike_def spec_deviation_def spike_values)
  have len: "length [''2024-W01'', ''2024-W02'', ''2024-W03'', ''2024-W04'', ''2024-W05'',
        ''2024-W06'', ''2024-W07'', ''2024-W08''] = 8"
    by simp
  have "compensatory (analyze_weekly_correlation (weekly_snapshot spike_example_8)
      (weekly_fakes spike_example_8)) =
     (if 8 \<le> length (weeks_2024 (weekly_snapshot spike_example_8) (weekly_fakes spike_example_8))
      then map (spike_at 4 (weeks_2024 (weekly_snapshot spike_example_8) (weekly_fakes spike_example_8))
                  (real_2024 (weekly_snapshot spike_example_8) (weekly_fakes spike_example_8))
                  (fake_2024 (weekly_snapshot spike_example_8) (weekly_fakes spike_example_8)))
             (filter (spec_spike 4
                        (real_2024 (weekly_snapshot spike_example_8) (weekly_fakes spike_example_8))
                        (fake_2024 (weekly_snapshot spike_example_8) (weekly_fakes spike_example_8)))
                [4..<length (weeks_2024 (weekly_snapshot spike_example_8)
                               (weekly_fakes spike_example_8))])
      else [])"
    using compensatory_spikes_guarded [of "weekly_snapshot spike_example_8"
        "weekly_fakes spike_example_8"]
    by (rule conjunct1)
  then have "compensatory (analyze_weekly_correlation (weekly_snapshot spike_example_8)
      (weekly_fakes spike_example_8)) =
     map (spike_at 4 [''2024-W01'', ''2024-W02'', ''2024-W03'', ''2024-W04'', ''2024-W05'',
                      ''2024-W06'', ''2024-W07'', ''2024-W08'']
            [10, 10, 10, 10, 10, 10, 10, 3] [2, 2, 2, 2, 2, 2, 2, 15]) [7]"
    by (simp only: spike_example_8_2024 len sp le_refl if_True)
  then have "compensatory (analyze_weekly_correlation (weekly_snapshot spike_example_8)
      (weekly_fakes spike_example_8)) =
     [\<lparr>spike_week = ''2024-W08'', spike_real = 3, spike_real_ma = 10, spike_real_dev = - 7,
       spike_fake = 15, spike_fake_ma = 2, spike_fake_dev = 13\<rparr>]"
    by (simp add: spike_at_def spec_deviation_def spike_values)
  with no show ?thesis
    by (simp add: spike_example_8_2024)
qed

theorem compensatory_spike_five_periods_counterexample:
  "real_2024 (weekly_snapshot spike_example) (weekly_fakes spike_example) = [10, 10, 10, 10, 3]
   \<and> fake_2024 (weekly_snapshot spike_example) (weekly_fakes spike_example) = [2, 2, 2, 2, 15]
   \<and> spec_deviation 4 [10, 10, 10, 10, 3] 4 = - 7
   \<and> spec_deviation 4 [2, 2, 2, 2, 15] 4 = 13
   \<and> spec_spike 4 [10, 10, 10, 10, 3] [2, 2, 2, 2, 15] 4
   \<and> compensatory (analyze_weekly_correlation (weekly_snapshot spike_example)
        (weekly_fakes spike_example)) = []"
  by (simp add: analyze_compensatory moving_average_def spike_example_2024 spec_spike_def
        spec_deviation_def spike_values)

end
